theory Spec2Isabelle
  imports Complex_Main
begin

section \<open>Python values\<close>

text \<open>
  The program is a Python script (\<^verbatim>\<open>src/index.py\<close>) that reads loosely typed JSON from a
  market-data provider. Values are modelled as the JSON-shaped Python values the provider
  can hand over. A string is a list of code points below 256; a dict has string keys and
  keeps insertion order, so it is an association list.

  A Python \<^verbatim>\<open>float\<close> is an IEEE-754 double: a sign and an exact rational magnitude, one of
  the two infinities, or NaN. \<open>Finite True 0\<close> is the negative zero.
\<close>

datatype pyfloat = Finite bool rat | Infinite bool | NaN

datatype pyval =
    PNone
  | PBool bool
  | PInt int
  | PFloat pyfloat
  | PStr string
  | PList "pyval list"
  | PDict "(string \<times> pyval) list"

text \<open>
  Exceptions are values. Only subclasses of \<^verbatim>\<open>Exception\<close> are modelled; \<open>ProviderError\<close>
  stands for any exception class of a collaborator (network, authentication, spreadsheet).
\<close>

datatype pyerr =
    ValueError
  | TypeError
  | OverflowError
  | ZeroDivisionError
  | KeyError
  | ProviderError string

section \<open>Floating point: rounding, parsing, formatting\<close>

definition round_half_even :: "rat \<Rightarrow> int" where
  "round_half_even q =
     (let f = \<lfloor>q\<rfloor>; r = q - of_int f
      in if r < 1 / 2 then f else if 1 / 2 < r then f + 1 else if even f then f else f + 1)"

fun bit_length :: "nat \<Rightarrow> nat" where
  "bit_length n = (if n = 0 then 0 else Suc (bit_length (n div 2)))"

declare bit_length.simps [simp del]

text \<open>The exponent of the binade of a positive rational: \<open>\<lfloor>log\<^sub>2 q\<rfloor>\<close>.\<close>

definition ilog2 :: "rat \<Rightarrow> int" where
  "ilog2 q =
     (if 1 \<le> q then int (bit_length (nat \<lfloor>q\<rfloor>)) - 1
      else - int (bit_length (nat \<lceil>1 / q\<rceil> - 1)))"

definition pow2 :: "int \<Rightarrow> rat" where
  "pow2 e = (if 0 \<le> e then 2 ^ nat e else 1 / 2 ^ nat (- e))"

definition pow10 :: "int \<Rightarrow> rat" where
  "pow10 e = (if 0 \<le> e then 10 ^ nat e else 1 / 10 ^ nat (- e))"

text \<open>
  Rounding a non-negative rational to the nearest double, ties to even: 53 significant
  bits, the exponent no smaller than that of the subnormals, overflow to infinity.
\<close>

definition round_double :: "bool \<Rightarrow> rat \<Rightarrow> pyfloat" where
  "round_double neg q =
     (if q = 0 then Finite neg 0
      else let e = max (ilog2 q) (- 1022);
               ulp = pow2 (e - 52);
               v = of_int (round_half_even (q / ulp)) * ulp
           in if pow2 1024 \<le> v then Infinite neg else Finite neg v)"

definition signed :: "bool \<Rightarrow> rat \<Rightarrow> rat" where
  "signed neg q = (if neg then - q else q)"

fun float_ge :: "pyfloat \<Rightarrow> pyfloat \<Rightarrow> bool" where
  "float_ge NaN _ = False"
| "float_ge _ NaN = False"
| "float_ge (Infinite n) (Infinite m) = (\<not> n \<or> m)"
| "float_ge (Infinite n) (Finite _ _) = (\<not> n)"
| "float_ge (Finite _ _) (Infinite m) = m"
| "float_ge (Finite n a) (Finite m b) = (signed m b \<le> signed n a)"

definition float_truediv :: "pyfloat \<Rightarrow> pyfloat \<Rightarrow> pyerr + pyfloat" where
  "float_truediv x y =
     (case y of
        NaN \<Rightarrow> Inr NaN
      | Infinite m \<Rightarrow>
          (case x of Finite n a \<Rightarrow> Inr (Finite (n \<noteq> m) 0) | _ \<Rightarrow> Inr NaN)
      | Finite m b \<Rightarrow>
          if b = 0 then Inl ZeroDivisionError
          else (case x of
                  NaN \<Rightarrow> Inr NaN
                | Infinite n \<Rightarrow> Inr (Infinite (n \<noteq> m))
                | Finite n a \<Rightarrow> Inr (round_double (n \<noteq> m) (a / b))))"

subsection \<open>\<^verbatim>\<open>float(s)\<close> on a string\<close>

text \<open>
  Python's \<^verbatim>\<open>float\<close> on a \<^verbatim>\<open>str\<close>: surrounding whitespace is stripped, an underscore
  may stand between two digits, then comes an optional sign and either \<^verbatim>\<open>inf\<close>,
  \<^verbatim>\<open>infinity\<close> or \<^verbatim>\<open>nan\<close> in any letter case, or a decimal numeral with an optional
  exponent. The whole string must be consumed; otherwise \<^verbatim>\<open>ValueError\<close> is raised. The
  decimal value is rounded correctly to a double.
\<close>

definition is_digit :: "char \<Rightarrow> bool" where
  "is_digit c = (48 \<le> (of_char c :: nat) \<and> (of_char c :: nat) \<le> 57)"

definition digit_val :: "char \<Rightarrow> nat" where
  "digit_val c = of_char c - 48"

definition is_space :: "char \<Rightarrow> bool" where
  "is_space c =
     (let n = (of_char c :: nat) in (9 \<le> n \<and> n \<le> 13) \<or> n = 32 \<or> n = 133 \<or> n = 160)"

definition ascii_lower :: "char \<Rightarrow> char" where
  "ascii_lower c =
     (let n = (of_char c :: nat) in if 65 \<le> n \<and> n \<le> 90 then char_of (n + 32) else c)"

definition py_strip :: "string \<Rightarrow> string" where
  "py_strip s = rev (dropWhile is_space (rev (dropWhile is_space s)))"

fun underscores_ok :: "char \<Rightarrow> string \<Rightarrow> bool" where
  "underscores_ok prev [] = (prev \<noteq> CHR ''_'')"
| "underscores_ok prev (c # cs) =
     ((if c = CHR ''_'' then is_digit prev else (prev = CHR ''_'' \<longrightarrow> is_digit c))
      \<and> underscores_ok c cs)"

definition split_sign :: "string \<Rightarrow> bool \<times> string" where
  "split_sign s =
     (case s of
        [] \<Rightarrow> (False, [])
      | c # cs \<Rightarrow>
          if c = CHR ''-'' then (True, cs)
          else if c = CHR ''+'' then (False, cs)
          else (False, s))"

definition digits_val :: "string \<Rightarrow> nat" where
  "digits_val ds = foldl (\<lambda>acc c. 10 * acc + digit_val c) 0 ds"

definition parse_exponent :: "string \<Rightarrow> int option" where
  "parse_exponent r =
     (case r of
        [] \<Rightarrow> Some 0
      | c # t \<Rightarrow>
          if c = CHR ''e'' \<or> c = CHR ''E'' then
            (case split_sign t of
               (neg, ds) \<Rightarrow>
                 if ds \<noteq> [] \<and> list_all is_digit ds
                 then Some (if neg then - int (digits_val ds) else int (digits_val ds))
                 else None)
          else None)"

definition parse_decimal :: "string \<Rightarrow> rat option" where
  "parse_decimal s =
     (let ip = takeWhile is_digit s;
          r1 = dropWhile is_digit s;
          fp = (case r1 of [] \<Rightarrow> [] | c # t \<Rightarrow> if c = CHR ''.'' then takeWhile is_digit t else []);
          r2 = (case r1 of [] \<Rightarrow> [] | c # t \<Rightarrow> if c = CHR ''.'' then dropWhile is_digit t else r1)
      in if ip = [] \<and> fp = [] then None
         else (case parse_exponent r2 of
                 None \<Rightarrow> None
               | Some ex \<Rightarrow> Some (of_nat (digits_val (ip @ fp)) * pow10 (ex - int (length fp)))))"

definition float_of_str :: "string \<Rightarrow> pyfloat option" where
  "float_of_str s =
     (let t = py_strip s
      in if \<not> underscores_ok (CHR 0x00) t then None
         else (case split_sign (filter (\<lambda>c. c \<noteq> CHR ''_'') t) of
                 (neg, body) \<Rightarrow>
                   let low = map ascii_lower body
                   in if low = ''inf'' \<or> low = ''infinity'' then Some (Infinite neg)
                      else if low = ''nan'' then Some NaN
                      else map_option (round_double neg) (parse_decimal body)))"

subsection \<open>Formatting with \<^verbatim>\<open>:.2f\<close>\<close>

definition digit_char :: "nat \<Rightarrow> char" where
  "digit_char d = char_of (48 + d)"

fun show_nat :: "nat \<Rightarrow> string" where
  "show_nat n = (if n < 10 then [digit_char n] else show_nat (n div 10) @ [digit_char (n mod 10)])"

declare show_nat.simps [simp del]

text \<open>
  Fixed point with two fractional digits, correctly rounded from the exact value of the
  double (ties to even); the sign bit is printed, also on a zero. Infinities and NaN print
  as words.
\<close>

definition fmt2 :: "pyfloat \<Rightarrow> string" where
  "fmt2 x =
     (case x of
        NaN \<Rightarrow> ''nan''
      | Infinite neg \<Rightarrow> (if neg then ''-inf'' else ''inf'')
      | Finite neg q \<Rightarrow>
          (let n = nat (round_half_even (q * 100))
           in (if neg then ''-'' else '''') @ show_nat (n div 100) @ ''.''
              @ [digit_char (n mod 100 div 10), digit_char (n mod 10)]))"

subsection \<open>Truthiness and \<^verbatim>\<open>float(x)\<close> on any value\<close>

fun py_truthy :: "pyval \<Rightarrow> bool" where
  "py_truthy PNone = False"
| "py_truthy (PBool b) = b"
| "py_truthy (PInt n) = (n \<noteq> 0)"
| "py_truthy (PFloat (Finite _ q)) = (q \<noteq> 0)"
| "py_truthy (PFloat _) = True"
| "py_truthy (PStr s) = (s \<noteq> [])"
| "py_truthy (PList xs) = (xs \<noteq> [])"
| "py_truthy (PDict kvs) = (kvs \<noteq> [])"

fun py_float :: "pyval \<Rightarrow> pyerr + pyfloat" where
  "py_float (PFloat x) = Inr x"
| "py_float (PBool b) = Inr (Finite False (if b then 1 else 0))"
| "py_float (PInt n) =
     (case round_double (n < 0) (of_int \<bar>n\<bar>) of
        Infinite _ \<Rightarrow> Inl OverflowError
      | x \<Rightarrow> Inr x)"
| "py_float (PStr s) = (case float_of_str s of None \<Rightarrow> Inl ValueError | Some x \<Rightarrow> Inr x)"
| "py_float _ = Inl TypeError"

section \<open>\<^verbatim>\<open>format_market_cap\<close> (lines 18 to 46)\<close>

definition float_1e12 :: pyfloat where "float_1e12 = Finite False 1000000000000"
definition float_1e9 :: pyfloat where "float_1e9 = Finite False 1000000000"
definition float_1e6 :: pyfloat where "float_1e6 = Finite False 1000000"

text \<open>One branch of lines 31 to 41: divide by the unit, format, name the unit.\<close>

definition scaled :: "pyfloat \<Rightarrow> pyfloat \<Rightarrow> string \<Rightarrow> pyerr + string \<times> string" where
  "scaled cap unit_size unit_name =
     (case float_truediv cap unit_size of
        Inl e \<Rightarrow> Inl e
      | Inr v \<Rightarrow> Inr (fmt2 v, unit_name))"

text \<open>The body of the \<^verbatim>\<open>try\<close> block, lines 28 to 44.\<close>

definition format_market_cap_try :: "pyval \<Rightarrow> pyerr + string \<times> string" where
  "format_market_cap_try market_cap_str =
     (case py_float market_cap_str of
        Inl e \<Rightarrow> Inl e
      | Inr cap \<Rightarrow>
          if float_ge cap float_1e12 then scaled cap float_1e12 ''T''
          else if float_ge cap float_1e9 then scaled cap float_1e9 ''B''
          else if float_ge cap float_1e6 then scaled cap float_1e6 ''M''
          else Inr (fmt2 cap, ''''))"

definition format_market_cap :: "pyval \<Rightarrow> pyerr + string \<times> string" where
  "format_market_cap market_cap_str =
     (if \<not> py_truthy market_cap_str then Inr (''N/A'', '''')
      else (case format_market_cap_try market_cap_str of
              Inl e \<Rightarrow> if e = ValueError \<or> e = TypeError then Inr (''N/A'', '''') else Inl e
            | Inr r \<Rightarrow> Inr r))"

section \<open>Dictionaries\<close>

text \<open>\<^verbatim>\<open>d.get(k, default)\<close> on a JSON object.\<close>

definition obj_get :: "(string \<times> pyval) list \<Rightarrow> string \<Rightarrow> pyval \<Rightarrow> pyval" where
  "obj_get kvs k d = (case map_of kvs k of None \<Rightarrow> d | Some v \<Rightarrow> v)"

text \<open>
  The two dicts the script builds itself, \<^verbatim>\<open>instrument_map\<close> and \<^verbatim>\<open>prices\<close>, are keyed by
  whatever the provider sent as a symbol. A list or a dict is not hashable and raises
  \<^verbatim>\<open>TypeError\<close>. Keys are compared as Python does: numbers by value across \<^verbatim>\<open>bool\<close>,
  \<^verbatim>\<open>int\<close> and \<^verbatim>\<open>float\<close>, a NaN equal to nothing, strings by content.
\<close>

fun hashable :: "pyval \<Rightarrow> bool" where
  "hashable (PList _) = False"
| "hashable (PDict _) = False"
| "hashable _ = True"

fun num_of :: "pyval \<Rightarrow> pyfloat option" where
  "num_of (PBool b) = Some (Finite False (if b then 1 else 0))"
| "num_of (PInt n) = Some (Finite (n < 0) (of_int \<bar>n\<bar>))"
| "num_of (PFloat x) = Some x"
| "num_of _ = None"

fun float_eq :: "pyfloat \<Rightarrow> pyfloat \<Rightarrow> bool" where
  "float_eq (Finite n a) (Finite m b) = (signed n a = signed m b)"
| "float_eq (Infinite n) (Infinite m) = (n = m)"
| "float_eq _ _ = False"

definition key_eq :: "pyval \<Rightarrow> pyval \<Rightarrow> bool" where
  "key_eq a b =
     (case num_of a of
        Some x \<Rightarrow> (case num_of b of Some y \<Rightarrow> float_eq x y | None \<Rightarrow> False)
      | None \<Rightarrow> (case num_of b of Some y \<Rightarrow> False | None \<Rightarrow> a = b))"

fun dict_lookup :: "(pyval \<times> 'v) list \<Rightarrow> pyval \<Rightarrow> 'v option" where
  "dict_lookup [] k = None"
| "dict_lookup ((k', v) # d) k = (if key_eq k' k then Some v else dict_lookup d k)"

text \<open>Storing keeps the position and the key object of an entry that is already there.\<close>

fun dict_store :: "(pyval \<times> 'v) list \<Rightarrow> pyval \<Rightarrow> 'v \<Rightarrow> (pyval \<times> 'v) list" where
  "dict_store [] k v = [(k, v)]"
| "dict_store ((k', v') # d) k v =
     (if key_eq k' k then (k', v) # d else (k', v') # dict_store d k v)"

definition dict_setitem :: "(pyval \<times> 'v) list \<Rightarrow> pyval \<Rightarrow> 'v \<Rightarrow> pyerr + (pyval \<times> 'v) list" where
  "dict_setitem d k v = (if hashable k then Inr (dict_store d k v) else Inl TypeError)"

definition dict_get :: "(pyval \<times> 'v) list \<Rightarrow> pyval \<Rightarrow> 'v \<Rightarrow> pyerr + 'v" where
  "dict_get d k dflt =
     (if hashable k then Inr (case dict_lookup d k of None \<Rightarrow> dflt | Some v \<Rightarrow> v)
      else Inl TypeError)"

text \<open>Iterating a value (\<^verbatim>\<open>for x in v\<close>, \<^verbatim>\<open>list.extend(v)\<close>).\<close>

fun py_iter :: "pyval \<Rightarrow> pyerr + pyval list" where
  "py_iter (PList xs) = Inr xs"
| "py_iter (PStr s) = Inr (map (\<lambda>c. PStr [c]) s)"
| "py_iter (PDict kvs) = Inr (map (\<lambda>kv. PStr (fst kv)) kvs)"
| "py_iter _ = Inl TypeError"

fun is_substring :: "string \<Rightarrow> string \<Rightarrow> bool" where
  "is_substring n [] = (n = [])"
| "is_substring n (c # cs) = (take (length n) (c # cs) = n \<or> is_substring n cs)"

text \<open>\<^verbatim>\<open>k in v\<close> for a string \<open>k\<close>.\<close>

fun py_contains :: "string \<Rightarrow> pyval \<Rightarrow> pyerr + bool" where
  "py_contains k (PDict kvs) = Inr (k \<in> set (map fst kvs))"
| "py_contains k (PList xs) = Inr (PStr k \<in> set xs)"
| "py_contains k (PStr s) = Inr (is_substring k s)"
| "py_contains k _ = Inl TypeError"

section \<open>\<^verbatim>\<open>fetch_latest_prices\<close> (lines 49 to 74)\<close>

type_synonym prices = "(pyval \<times> string) list"


text \<open>
  The loop of line 62 over \<^verbatim>\<open>zip(tickers, latest_prices_list)\<close>. The inner handler
  catches \<^verbatim>\<open>ValueError\<close> and \<^verbatim>\<open>TypeError\<close> only, and its own store can raise again.
\<close>

fun price_loop :: "prices \<Rightarrow> (pyval \<times> pyval) list \<Rightarrow> pyerr + prices" where
  "price_loop prices [] = Inr prices"
| "price_loop prices ((ticker, price_str) # rest) =
     (case (case py_float price_str of
              Inl e \<Rightarrow> Inl e
            | Inr price \<Rightarrow> dict_setitem prices ticker (''$'' @ fmt2 price)) of
        Inr prices' \<Rightarrow> price_loop prices' rest
      | Inl e \<Rightarrow>
          if e = ValueError \<or> e = TypeError then
            (case dict_setitem prices ticker ''N/A'' of
               Inl e' \<Rightarrow> Inl e'
             | Inr prices' \<Rightarrow> price_loop prices' rest)
          else Inl e)"

definition fetch_latest_prices_try ::
    "(pyval list \<Rightarrow> pyerr + pyval) \<Rightarrow> pyval list \<Rightarrow> pyerr + prices" where
  "fetch_latest_prices_try get_latest_price tickers =
     (case get_latest_price tickers of
        Inl e \<Rightarrow> Inl e
      | Inr latest_prices_list \<Rightarrow>
          (case latest_prices_list of
             PList ps \<Rightarrow> if ps \<noteq> [] then price_loop [] (zip tickers ps) else Inr []
           | _ \<Rightarrow> Inr []))"

text \<open>The dict comprehension of line 72.\<close>

fun all_na :: "prices \<Rightarrow> pyval list \<Rightarrow> pyerr + prices" where
  "all_na prices [] = Inr prices"
| "all_na prices (ticker # rest) =
     (case dict_setitem prices ticker ''N/A'' of
        Inl e \<Rightarrow> Inl e
      | Inr prices' \<Rightarrow> all_na prices' rest)"

definition fetch_latest_prices ::
    "(pyval list \<Rightarrow> pyerr + pyval) \<Rightarrow> pyval list \<Rightarrow> pyerr + prices" where
  "fetch_latest_prices get_latest_price tickers =
     (if tickers = [] then Inr []
      else (case fetch_latest_prices_try get_latest_price tickers of
              Inr prices \<Rightarrow> Inr prices
            | Inl e \<Rightarrow> all_na [] tickers))"

section \<open>The run: \<^verbatim>\<open>export_24hr_market_to_csv_and_sheet\<close> (lines 116 to 232)\<close>

text \<open>
  The collaborators (the \<^verbatim>\<open>robin_stocks\<close> client, \<^verbatim>\<open>pandas\<close>' markdown printer) are a
  record of their answers: a value, or the exception they raise. A run returns the
  calls it made, in order, and the way it ended. Console output is left out.
\<close>

record env =
  r_login :: "pyerr + pyval"
  r_get_watchlist_by_name :: "pyerr + pyval"
  r_get_latest_price :: "pyval list \<Rightarrow> pyerr + pyval"
  r_get_fundamentals :: "pyval list \<Rightarrow> pyerr + pyval"
  df_to_markdown :: "pyerr option"
  r_logout :: "pyerr option"

datatype event =
    EvLogin
  | EvGetWatchlist
  | EvGetLatestPrice "pyval list"
  | EvSleep
  | EvGetFundamentals "pyval list"
  | EvToMarkdown
  | EvUpload "string list" "pyval list list"
  | EvLogout

text \<open>
  How a run ends: the four early exits with their own message (lines 132, 147, 160, 222),
  the upload, or an exception caught at line 224.
\<close>

datatype outcome =
    LoginFailed
  | EmptyWatchlist
  | NoTickers
  | EmptyResult
  | Published
  | Unexpected pyerr

datatype 'a step = Raised pyerr | Returned outcome | Continue 'a

definition then_do ::
    "event list \<times> 'a step \<Rightarrow> ('a \<Rightarrow> event list \<times> 'b step) \<Rightarrow> event list \<times> 'b step" where
  "then_do m f =
     (case m of
        (tr, Raised e) \<Rightarrow> (tr, Raised e)
      | (tr, Returned out) \<Rightarrow> (tr, Returned out)
      | (tr, Continue x) \<Rightarrow> (case f x of (tr', r) \<Rightarrow> (tr @ tr', r)))"

subsection \<open>Login, lines 129 to 133\<close>

definition login_rejected :: "pyval \<Rightarrow> pyerr + bool" where
  "login_rejected login_data =
     (if \<not> py_truthy login_data then Inr True
      else (case py_contains ''access_token'' login_data of
              Inl e \<Rightarrow> Inl e
            | Inr b \<Rightarrow> Inr (\<not> b)))"

definition do_login :: "env \<Rightarrow> event list \<times> unit step" where
  "do_login env =
     (case r_login env of
        Inl e \<Rightarrow> ([EvLogin], Raised e)
      | Inr login_data \<Rightarrow>
          (case login_rejected login_data of
             Inl e \<Rightarrow> ([EvLogin], Raised e)
           | Inr rejected \<Rightarrow>
               if rejected then ([EvLogin], Returned LoginFailed)
               else ([EvLogin], Continue ())))"

subsection \<open>The watchlist, lines 138 to 161\<close>

type_synonym instrument_map = "(pyval \<times> (string \<times> pyval) list) list"

definition list_of_instruments :: "pyval \<Rightarrow> pyval" where
  "list_of_instruments watchlist_raw_data =
     (case watchlist_raw_data of
        PDict kvs \<Rightarrow>
          if ''results'' \<in> set (map fst kvs) then obj_get kvs ''results'' (PList [])
          else PList []
      | PList xs \<Rightarrow> PList xs
      | _ \<Rightarrow> PList [])"

fun extract_loop :: "instrument_map \<Rightarrow> pyval list \<Rightarrow> pyerr + instrument_map" where
  "extract_loop m [] = Inr m"
| "extract_loop m (i # rest) =
     (case i of
        PDict kvs \<Rightarrow>
          if py_truthy (obj_get kvs ''symbol'' PNone) then
            (case dict_setitem m (obj_get kvs ''symbol'' PNone)
                    [(''Name'', obj_get kvs ''name'' PNone)] of
               Inl e \<Rightarrow> Inl e
             | Inr m' \<Rightarrow> extract_loop m' rest)
          else extract_loop m rest
      | _ \<Rightarrow> extract_loop m rest)"

definition load_watchlist :: "env \<Rightarrow> event list \<times> instrument_map step" where
  "load_watchlist env =
     (case r_get_watchlist_by_name env of
        Inl e \<Rightarrow> ([EvGetWatchlist], Raised e)
      | Inr watchlist_raw_data \<Rightarrow>
          if \<not> py_truthy (list_of_instruments watchlist_raw_data)
          then ([EvGetWatchlist], Returned EmptyWatchlist)
          else (case py_iter (list_of_instruments watchlist_raw_data) of
                  Inl e \<Rightarrow> ([EvGetWatchlist], Raised e)
                | Inr instruments \<Rightarrow>
                    (case extract_loop [] instruments of
                       Inl e \<Rightarrow> ([EvGetWatchlist], Raised e)
                     | Inr m \<Rightarrow>
                         if map fst m = [] then ([EvGetWatchlist], Returned NoTickers)
                         else ([EvGetWatchlist], Continue m))))"

subsection \<open>Fundamentals in chunks, lines 171 to 184\<close>

definition CHUNK_SIZE :: nat where
  "CHUNK_SIZE = 100"

text \<open>\<^verbatim>\<open>[xs[i:i + CHUNK_SIZE] for i in range(0, len(xs), CHUNK_SIZE)]\<close>\<close>

definition ticker_chunks :: "'a list \<Rightarrow> 'a list list" where
  "ticker_chunks xs =
     map (\<lambda>k. take CHUNK_SIZE (drop (k * CHUNK_SIZE) xs))
       [0 ..< (length xs + CHUNK_SIZE - 1) div CHUNK_SIZE]"

text \<open>What one chunk's answer adds to \<^verbatim>\<open>all_fundamentals\<close>, lines 179 to 182.\<close>

definition chunk_records :: "pyval \<Rightarrow> pyerr + pyval list" where
  "chunk_records chunk_fundamentals =
     (case chunk_fundamentals of
        PList xs \<Rightarrow> Inr xs
      | PDict kvs \<Rightarrow>
          if py_truthy (obj_get kvs ''results'' PNone)
          then py_iter (obj_get kvs ''results'' (PList []))
          else Inr []
      | _ \<Rightarrow> Inr [])"

fun fundamentals_loop ::
    "(pyval list \<Rightarrow> pyerr + pyval) \<Rightarrow> pyval list \<Rightarrow> pyval list list
      \<Rightarrow> event list \<times> (pyerr + pyval list)" where
  "fundamentals_loop get_fundamentals all_fundamentals [] = ([], Inr all_fundamentals)"
| "fundamentals_loop get_fundamentals all_fundamentals (chunk # rest) =
     (case get_fundamentals chunk of
        Inl e \<Rightarrow> ([EvSleep, EvGetFundamentals chunk], Inl e)
      | Inr chunk_fundamentals \<Rightarrow>
          (case chunk_records chunk_fundamentals of
             Inl e \<Rightarrow> ([EvSleep, EvGetFundamentals chunk], Inl e)
           | Inr recs \<Rightarrow>
               (case fundamentals_loop get_fundamentals (all_fundamentals @ recs) rest of
                  (tr, r) \<Rightarrow> (EvSleep # EvGetFundamentals chunk # tr, r))))"

definition fetch_fundamentals ::
    "(pyval list \<Rightarrow> pyerr + pyval) \<Rightarrow> pyval list \<Rightarrow> event list \<times> (pyerr + pyval list)" where
  "fetch_fundamentals get_fundamentals unique_tickers =
     fundamentals_loop get_fundamentals [] (ticker_chunks unique_tickers)"

subsection \<open>The merge, lines 187 to 207\<close>

type_synonym out_row = "(string \<times> pyval) list"

text \<open>One pass of the loop body: no row for a record that is falsy or not a dict.\<close>

definition merge_row :: "instrument_map \<Rightarrow> prices \<Rightarrow> pyval \<Rightarrow> pyerr + out_row option" where
  "merge_row instrument_map latest_prices_map fund =
     (case fund of
        PDict kvs \<Rightarrow>
          if kvs = [] then Inr None
          else (case dict_get instrument_map (obj_get kvs ''symbol'' (PStr ''N/A'')) [] of
                  Inl e \<Rightarrow> Inl e
                | Inr entry \<Rightarrow>
                    (case dict_get latest_prices_map (obj_get kvs ''symbol'' (PStr ''N/A''))
                            ''N/A'' of
                       Inl e \<Rightarrow> Inl e
                     | Inr price \<Rightarrow>
                         (case format_market_cap (obj_get kvs ''market_cap'' PNone) of
                            Inl e \<Rightarrow> Inl e
                          | Inr (formatted_cap_value, formatted_cap_unit) \<Rightarrow>
                              Inr (Some
                                [(''Name'',
                                  obj_get entry ''Name'' (obj_get kvs ''name'' (PStr ''N/A''))),
                                 (''Symbol'', obj_get kvs ''symbol'' (PStr ''N/A'')),
                                 (''Price'', PStr price),
                                 (''Marketcap Value'', PStr formatted_cap_value),
                                 (''Marketcap Unit'', PStr formatted_cap_unit)]))))
      | _ \<Rightarrow> Inr None)"

fun merge_loop ::
    "instrument_map \<Rightarrow> prices \<Rightarrow> out_row list \<Rightarrow> pyval list \<Rightarrow> pyerr + out_row list" where
  "merge_loop instrument_map latest_prices_map final_data [] = Inr final_data"
| "merge_loop instrument_map latest_prices_map final_data (fund # rest) =
     (case merge_row instrument_map latest_prices_map fund of
        Inl e \<Rightarrow> Inl e
      | Inr None \<Rightarrow> merge_loop instrument_map latest_prices_map final_data rest
      | Inr (Some row) \<Rightarrow>
          merge_loop instrument_map latest_prices_map (final_data @ [row]) rest)"

definition merge :: "instrument_map \<Rightarrow> prices \<Rightarrow> pyval list \<Rightarrow> pyerr + out_row list" where
  "merge instrument_map latest_prices_map all_fundamentals =
     merge_loop instrument_map latest_prices_map [] all_fundamentals"

definition enrich :: "env \<Rightarrow> instrument_map \<Rightarrow> event list \<times> out_row list step" where
  "enrich env instrument_map =
     (let unique_tickers = map fst instrument_map
      in case fetch_latest_prices (r_get_latest_price env) unique_tickers of
           Inl e \<Rightarrow> ([EvGetLatestPrice unique_tickers], Raised e)
         | Inr latest_prices_map \<Rightarrow>
             (case fetch_fundamentals (r_get_fundamentals env) unique_tickers of
                (tr, Inl e) \<Rightarrow> (EvGetLatestPrice unique_tickers # tr, Raised e)
              | (tr, Inr all_fundamentals) \<Rightarrow>
                  (case merge instrument_map latest_prices_map all_fundamentals of
                     Inl e \<Rightarrow> (EvGetLatestPrice unique_tickers # tr, Raised e)
                   | Inr final_data \<Rightarrow>
                       (EvGetLatestPrice unique_tickers # tr, Continue final_data))))"

subsection \<open>The table and its upload, lines 77 to 113 and 210 to 222\<close>

record dataframe =
  df_columns :: "string list"
  df_rows :: "out_row list"

fun first_seen :: "'a list \<Rightarrow> 'a list \<Rightarrow> 'a list" where
  "first_seen seen [] = seen"
| "first_seen seen (x # xs) = first_seen (if x \<in> set seen then seen else seen @ [x]) xs"

text \<open>
  \<^verbatim>\<open>pd.DataFrame(final_data)\<close> on a list of dicts: the columns are the keys in the order
  they are first seen. \<^verbatim>\<open>df.values.tolist()\<close> reads each row in column order, a missing
  cell being NaN.
\<close>

definition DataFrame :: "out_row list \<Rightarrow> dataframe" where
  "DataFrame data =
     \<lparr>df_columns = first_seen [] (concat (map (map fst) data)), df_rows = data\<rparr>"

definition df_values :: "dataframe \<Rightarrow> pyval list list" where
  "df_values df = map (\<lambda>row. map (\<lambda>c. obj_get row c (PFloat NaN)) (df_columns df)) (df_rows df)"

definition df_empty :: "dataframe \<Rightarrow> bool" where
  "df_empty df = (df_columns df = [] \<or> df_rows df = [])"

definition select_columns :: "dataframe \<Rightarrow> string list \<Rightarrow> pyerr + dataframe" where
  "select_columns df cols =
     (if set cols \<subseteq> set (df_columns df) then Inr (df\<lparr>df_columns := cols\<rparr>)
      else Inl KeyError)"

definition output_columns :: "string list" where
  "output_columns = [''Name'', ''Symbol'', ''Price'', ''Marketcap Value'', ''Marketcap Unit'']"

text \<open>
  \<^verbatim>\<open>upload_to_google_sheets\<close> catches every exception of the spreadsheet client (line
  111), so for the run it is one call that always returns; what it is given is the header
  and the data rows of line 106.
\<close>

definition upload_to_google_sheets :: "dataframe \<Rightarrow> event list" where
  "upload_to_google_sheets df = [EvUpload (df_columns df) (df_values df)]"

definition publish :: "env \<Rightarrow> out_row list \<Rightarrow> event list \<times> (pyerr + outcome)" where
  "publish env final_data =
     (if \<not> df_empty (DataFrame final_data) then
        (case select_columns (DataFrame final_data) output_columns of
           Inl e \<Rightarrow> ([], Inl e)
         | Inr df \<Rightarrow>
             (case df_to_markdown env of
                Some e \<Rightarrow> ([EvToMarkdown], Inl e)
              | None \<Rightarrow> (EvToMarkdown # upload_to_google_sheets df, Inr Published)))
      else ([], Inr EmptyResult))"

subsection \<open>The whole run\<close>

text \<open>The \<^verbatim>\<open>try\<close> block, lines 127 to 222.\<close>

definition run_try :: "env \<Rightarrow> event list \<times> (pyerr + outcome)" where
  "run_try env =
     (case then_do (do_login env) (\<lambda>_. then_do (load_watchlist env) (enrich env)) of
        (tr, Raised e) \<Rightarrow> (tr, Inl e)
      | (tr, Returned out) \<Rightarrow> (tr, Inr out)
      | (tr, Continue final_data) \<Rightarrow>
          (case publish env final_data of (tr', r) \<Rightarrow> (tr @ tr', r)))"

text \<open>
  The handler of line 224 turns an exception into a message; the \<^verbatim>\<open>finally\<close> block of
  line 226 logs out and drops whatever the logout raises.
\<close>

definition export_24hr_market_to_csv_and_sheet :: "env \<Rightarrow> event list \<times> outcome" where
  "export_24hr_market_to_csv_and_sheet env =
     (case run_try env of
        (tr, r) \<Rightarrow>
          (tr @ [EvLogout],
           (case r_logout env of
              Some e \<Rightarrow> (case r of Inl e' \<Rightarrow> Unexpected e' | Inr out \<Rightarrow> out)
            | None \<Rightarrow> (case r of Inl e' \<Rightarrow> Unexpected e' | Inr out \<Rightarrow> out))))"

section \<open>The output schema\<close>

text \<open>
  The shapes the output contract names: a fixed-point numeral with exactly two fractional
  digits (an optional minus sign, at least one integer digit), the words \<^verbatim>\<open>:.2f\<close> prints
  for a value that is not finite, and the four units.
\<close>

definition is_fixed2 :: "string \<Rightarrow> bool" where
  "is_fixed2 s =
     (case rev (case s of [] \<Rightarrow> [] | c # r \<Rightarrow> if c = CHR ''-'' then r else s) of
        b # a # dot # ds \<Rightarrow>
          dot = CHR ''.'' \<and> is_digit a \<and> is_digit b \<and> ds \<noteq> [] \<and> list_all is_digit ds
      | _ \<Rightarrow> False)"

definition is_nonfinite_word :: "string \<Rightarrow> bool" where
  "is_nonfinite_word s = (s = ''nan'' \<or> s = ''inf'' \<or> s = ''-inf'')"

definition is_unit :: "string \<Rightarrow> bool" where
  "is_unit u = (u = '''' \<or> u = ''M'' \<or> u = ''B'' \<or> u = ''T'')"

definition cap_value_in_schema :: "string \<Rightarrow> bool" where
  "cap_value_in_schema v = (v = ''N/A'' \<or> is_fixed2 v)"

definition price_in_schema :: "string \<Rightarrow> bool" where
  "price_in_schema p =
     (p = ''N/A'' \<or> (case p of [] \<Rightarrow> False | c # t \<Rightarrow> c = CHR ''$'' \<and> is_fixed2 t))"

section \<open>Auxiliary notions for stating the properties\<close>

fun is_str :: "pyval \<Rightarrow> bool" where
  "is_str (PStr _) = True"
| "is_str _ = False"

text \<open>A collaborator that gives the same answer to every request.\<close>

definition answers :: "'b \<Rightarrow> 'a \<Rightarrow> 'b" where
  "answers v x = v"

fun is_dict :: "pyval \<Rightarrow> bool" where
  "is_dict (PDict _) = True"
| "is_dict _ = False"

text \<open>The records the merge loop turns into a row: dicts with at least one key.\<close>

fun is_nonempty_dict :: "pyval \<Rightarrow> bool" where
  "is_nonempty_dict (PDict kvs) = (kvs \<noteq> [])"
| "is_nonempty_dict _ = False"

text \<open>Line 190: the symbol a record is merged under.\<close>

fun record_symbol :: "pyval \<Rightarrow> pyval" where
  "record_symbol (PDict kvs) = obj_get kvs ''symbol'' (PStr ''N/A'')"
| "record_symbol _ = PNone"

text \<open>
  A record on which the loop body cannot raise: its symbol can be looked up in a dict and
  its market cap is accepted by \<^verbatim>\<open>format_market_cap\<close>.
\<close>

fun record_ok :: "pyval \<Rightarrow> bool" where
  "record_ok (PDict kvs) =
     (kvs = [] \<or>
      (hashable (obj_get kvs ''symbol'' (PStr ''N/A''))
       \<and> (case format_market_cap (obj_get kvs ''market_cap'' PNone) of
            Inl e \<Rightarrow> False
          | Inr r \<Rightarrow> True)))"
| "record_ok _ = True"

fun is_upload :: "event \<Rightarrow> bool" where
  "is_upload (EvUpload _ _) = True"
| "is_upload _ = False"

text \<open>
  What the code can print in the two numeric columns: the shapes of the output schema, or
  the word \<^verbatim>\<open>:.2f\<close> gives for a value that is not finite.
\<close>

definition cap_value_as_printed :: "string \<Rightarrow> bool" where
  "cap_value_as_printed v = (v = ''N/A'' \<or> is_fixed2 v \<or> is_nonfinite_word v)"

definition price_as_printed :: "string \<Rightarrow> bool" where
  "price_as_printed p =
     (p = ''N/A''
      \<or> (case p of [] \<Rightarrow> False | c # t \<Rightarrow> c = CHR ''$'' \<and> (is_fixed2 t \<or> is_nonfinite_word t)))"

text \<open>A data row as the upload receives it, cell by cell in column order.\<close>

fun row_as_printed :: "pyval list \<Rightarrow> bool" where
  "row_as_printed [name, symbol, PStr price, PStr v, PStr u] =
     (price_as_printed price \<and> cap_value_as_printed v \<and> is_unit u)"
| "row_as_printed _ = False"

fun row_in_schema :: "pyval list \<Rightarrow> bool" where
  "row_in_schema [name, symbol, PStr price, PStr v, PStr u] =
     (price_in_schema price \<and> cap_value_in_schema v \<and> is_unit u)"
| "row_in_schema _ = False"

text \<open>
  The steps of the \<^verbatim>\<open>try\<close> block up to and including the merge (lines 129 to 207): the
  calls they made and, when none of them returned or raised, the merged rows.
\<close>

definition rows_of_run :: "env \<Rightarrow> event list \<times> out_row list step" where
  "rows_of_run env = then_do (do_login env) (\<lambda>_. then_do (load_watchlist env) (enrich env))"

text \<open>
  A row as the merge builds it (lines 201 to 207): a dict with the five keys in order,
  whose last three values are strings of the shapes above.
\<close>

fun out_row_as_printed :: "out_row \<Rightarrow> bool" where
  "out_row_as_printed [(k1, name), (k2, symbol), (k3, PStr price), (k4, PStr v), (k5, PStr u)] =
     (k1 = ''Name'' \<and> k2 = ''Symbol'' \<and> k3 = ''Price'' \<and> k4 = ''Marketcap Value''
      \<and> k5 = ''Marketcap Unit''
      \<and> price_as_printed price \<and> cap_value_as_printed v \<and> is_unit u)"
| "out_row_as_printed _ = False"

section \<open>Verified properties\<close>

subsection \<open>Facts about the floating-point model\<close>

lemma float_of_str_Nil: "float_of_str [] = None"
  by code_simp

lemma round_half_even_nonneg: "0 \<le> q \<Longrightarrow> 0 \<le> round_half_even q"
  by (auto simp: round_half_even_def Let_def)

lemma pow2_pos: "0 < pow2 e"
  by (simp add: pow2_def)

lemma round_double_nonneg:
  assumes "0 \<le> q" and "round_double neg q = Finite n v"
  shows "0 \<le> v \<and> n = neg"
proof (cases "q = 0")
  case True
  with assms show ?thesis by (simp add: round_double_def)
next
  case False
  let ?ulp = "pow2 (max (ilog2 q) (- 1022) - 52)"
  have "0 \<le> q / ?ulp" using assms(1) pow2_pos [of "max (ilog2 q) (- 1022) - 52"] by simp
  then have "0 \<le> round_half_even (q / ?ulp)" by (rule round_half_even_nonneg)
  then have "0 \<le> (of_int (round_half_even (q / ?ulp)) :: rat) * ?ulp"
    using pow2_pos [of "max (ilog2 q) (- 1022) - 52"] by simp
  with assms(2) False show ?thesis
    by (auto simp: round_double_def Let_def split: if_splits)
qed

lemma pow10_pos: "0 < pow10 e"
  by (simp add: pow10_def)

lemma parse_decimal_nonneg: "parse_decimal s = Some q \<Longrightarrow> 0 \<le> q"
  by (auto simp: parse_decimal_def Let_def split: if_splits option.splits
        intro!: mult_nonneg_nonneg less_imp_le [OF pow10_pos])

lemma float_of_str_Finite:
  assumes "float_of_str s = Some (Finite neg q)"
  shows "0 \<le> q"
  using assms round_double_nonneg parse_decimal_nonneg
  by (fastforce simp: float_of_str_def Let_def split: if_splits prod.splits)

subsection \<open>Evaluating the model on literals\<close>

lemma bit_length_numeral:
  "bit_length 0 = 0" "bit_length (Suc 0) = 1"
  "bit_length (numeral k) = Suc (bit_length (numeral k div 2))"
  by (simp_all add: bit_length.simps [of 0] bit_length.simps [of "Suc 0"]
      bit_length.simps [of "numeral k"])

lemma floor_rat_numeral: "\<lfloor>numeral a / numeral b :: rat\<rfloor> = numeral a div numeral b"
  by (metis floor_divide_of_int_eq of_int_numeral)

lemma ceiling_rat_numeral: "\<lceil>numeral a / numeral b :: rat\<rceil> = - (- numeral a div numeral b)"
  by (metis ceiling_def floor_divide_of_int_eq minus_divide_left of_int_minus of_int_numeral)

lemma show_nat_numeral:
  "show_nat 0 = ''0''" "show_nat (Suc 0) = ''1''"
  "show_nat (numeral k) =
     (if numeral k < (10::nat) then [digit_char (numeral k)]
      else show_nat (numeral k div 10) @ [digit_char (numeral k mod 10)])"
  by (simp_all add: show_nat.simps [of 0] show_nat.simps [of "Suc 0"]
      show_nat.simps [of "numeral k"] digit_char_def char_of_def bit_0)

lemmas float_eval =
  round_double_def ilog2_def bit_length_numeral pow2_def pow10_def round_half_even_def
  floor_rat_numeral ceiling_rat_numeral Let_def

lemmas str_eval =
  float_of_str_def py_strip_def is_space_def is_digit_def digit_val_def digits_val_def
  split_sign_def ascii_lower_def char_of_def bit_0 parse_decimal_def parse_exponent_def

lemmas fmt_eval = fmt2_def show_nat_numeral digit_char_def char_of_def bit_0

subsection \<open>The market cap formatter\<close>

lemma float_truediv_Finite:
  "b \<noteq> 0 \<Longrightarrow> float_truediv x (Finite m b) =
     Inr (case x of
            NaN \<Rightarrow> NaN
          | Infinite n \<Rightarrow> Infinite (n \<noteq> m)
          | Finite n a \<Rightarrow> round_double (n \<noteq> m) (a / b))"
  by (simp add: float_truediv_def split: pyfloat.splits)

lemma scaled_value:
  "scaled cap (Finite False b) u =
     (if b = 0 then Inl ZeroDivisionError
      else Inr (fmt2 (case cap of
                        NaN \<Rightarrow> NaN
                      | Infinite n \<Rightarrow> Infinite n
                      | Finite n a \<Rightarrow> round_double n (a / b)), u))"
  by (simp add: scaled_def float_truediv_def split: pyfloat.splits)

lemma format_market_cap_PStr:
  "format_market_cap (PStr s) =
     (case float_of_str s of
        None \<Rightarrow> Inr (''N/A'', '''')
      | Some cap \<Rightarrow>
          if float_ge cap float_1e12 then scaled cap float_1e12 ''T''
          else if float_ge cap float_1e9 then scaled cap float_1e9 ''B''
          else if float_ge cap float_1e6 then scaled cap float_1e6 ''M''
          else Inr (fmt2 cap, ''''))"
proof (cases "float_of_str s")
  case None
  then show ?thesis
    by (simp add: format_market_cap_def format_market_cap_try_def)
next
  case (Some cap)
  then have "s \<noteq> []" using float_of_str_Nil by auto
  with Some show ?thesis
    by (simp add: format_market_cap_def format_market_cap_try_def float_1e12_def float_1e9_def
        float_1e6_def scaled_value)
qed

text \<open>
  C4. For a string that parses to a float, the unit is chosen by the thresholds
  \<open>10\<^sup>1\<^sup>2\<close>, \<open>10\<^sup>9\<close>, \<open>10\<^sup>6\<close> taken in this order with inclusive comparisons on the
  value, the quotient by the chosen unit is formatted with two decimals, and at the exact
  boundary the larger unit is chosen.
\<close>

theorem format_market_cap_thresholds:
  "(float_of_str s = Some cap \<longrightarrow>
      format_market_cap (PStr s) =
        Inr (case cap of
               NaN \<Rightarrow> (fmt2 cap, '''')
             | Infinite neg \<Rightarrow> (fmt2 cap, if neg then '''' else ''T'')
             | Finite neg q \<Rightarrow>
                 if neg then (fmt2 cap, '''')
                 else if 10 ^ 12 \<le> q then (fmt2 (round_double False (q / 10 ^ 12)), ''T'')
                 else if 10 ^ 9 \<le> q then (fmt2 (round_double False (q / 10 ^ 9)), ''B'')
                 else if 10 ^ 6 \<le> q then (fmt2 (round_double False (q / 10 ^ 6)), ''M'')
                 else (fmt2 cap, '''')))
   \<and> format_market_cap (PStr ''1000000000000.00'') = Inr (''1.00'', ''T'')
   \<and> format_market_cap (PStr ''1000000000.00'') = Inr (''1.00'', ''B'')
   \<and> format_market_cap (PStr ''1000000.00'') = Inr (''1.00'', ''M'')
   \<and> format_market_cap (PStr ''999999999999.99'') = Inr (''1000.00'', ''B'')"
proof (intro conjI impI)
  assume p: "float_of_str s = Some cap"
  show "format_market_cap (PStr s) =
        Inr (case cap of
               NaN \<Rightarrow> (fmt2 cap, '''')
             | Infinite neg \<Rightarrow> (fmt2 cap, if neg then '''' else ''T'')
             | Finite neg q \<Rightarrow>
                 if neg then (fmt2 cap, '''')
                 else if 10 ^ 12 \<le> q then (fmt2 (round_double False (q / 10 ^ 12)), ''T'')
                 else if 10 ^ 9 \<le> q then (fmt2 (round_double False (q / 10 ^ 9)), ''B'')
                 else if 10 ^ 6 \<le> q then (fmt2 (round_double False (q / 10 ^ 6)), ''M'')
                 else (fmt2 cap, ''''))"
  proof (cases cap)
    case NaN
    with p show ?thesis
      by (simp add: format_market_cap_PStr)
  next
    case (Infinite neg)
    with p show ?thesis
      by (simp add: format_market_cap_PStr float_1e12_def float_1e9_def float_1e6_def scaled_value)
  next
    case (Finite neg q)
    with p have "0 \<le> q" by (simp add: float_of_str_Finite)
    with p Finite show ?thesis
      by (simp add: format_market_cap_PStr float_1e12_def float_1e9_def float_1e6_def
          scaled_value signed_def)
  qed
next
  have p12: "float_of_str ''1000000000000.00'' = Some (Finite False 1000000000000)"
    by (simp add: str_eval float_eval)
  have p9: "float_of_str ''1000000000.00'' = Some (Finite False 1000000000)"
    by (simp add: str_eval float_eval)
  have p6: "float_of_str ''1000000.00'' = Some (Finite False 1000000)"
    by (simp add: str_eval float_eval)
  have p: "float_of_str ''999999999999.99'' = Some (Finite False (4095999999999959 / 4096))"
    by (simp add: str_eval float_eval)
  have one: "fmt2 (round_double False 1) = ''1.00''"
    by (simp add: float_eval fmt_eval)
  show "format_market_cap (PStr ''1000000000000.00'') = Inr (''1.00'', ''T'')"
    by (simp add: format_market_cap_PStr p12 float_1e12_def scaled_value one signed_def)
  show "format_market_cap (PStr ''1000000000.00'') = Inr (''1.00'', ''B'')"
    by (simp add: format_market_cap_PStr p9 float_1e12_def float_1e9_def scaled_value one signed_def)
  show "format_market_cap (PStr ''1000000.00'') = Inr (''1.00'', ''M'')"
    by (simp add: format_market_cap_PStr p6 float_1e12_def float_1e9_def float_1e6_def
        scaled_value one signed_def)
  have "fmt2 (round_double False (4095999999999959 / 4096 / 1000000000)) = ''1000.00''"
    by (simp add: float_eval fmt_eval)
  then show "format_market_cap (PStr ''999999999999.99'') = Inr (''1000.00'', ''B'')"
    by (simp add: format_market_cap_PStr p float_1e12_def float_1e9_def scaled_value signed_def)
qed

theorem format_market_cap_thresholds_witness:
  "float_of_str ''4440000000000.00'' = Some (Finite False 4440000000000)
   \<and> format_market_cap (PStr ''4440000000000.00'') = Inr (''4.44'', ''T'')"
proof -
  have p: "float_of_str ''4440000000000.00'' = Some (Finite False 4440000000000)"
    by (simp add: str_eval float_eval)
  have r: "fmt2 (round_double False (4440000000000 / 10 ^ 12)) = ''4.44''"
    by (simp add: float_eval fmt_eval)
  from format_market_cap_thresholds [of "''4440000000000.00''" "Finite False 4440000000000"] p r
  show ?thesis by simp
qed

text \<open>
  C5. \<^verbatim>\<open>format_market_cap\<close> returns a pair on \<^verbatim>\<open>None\<close> and on every string and raises on
  none of them; \<^verbatim>\<open>None\<close>, the empty string and every string that \<^verbatim>\<open>float\<close> rejects, such as
  \<^verbatim>\<open>abc\<close>, give \<^verbatim>\<open>("N/A", "")\<close>.
\<close>

theorem format_market_cap_total:
  "format_market_cap PNone = Inr (''N/A'', '''')
   \<and> format_market_cap (PStr '''') = Inr (''N/A'', '''')
   \<and> format_market_cap (PStr ''abc'') = Inr (''N/A'', '''')
   \<and> (float_of_str s = None \<longrightarrow> format_market_cap (PStr s) = Inr (''N/A'', ''''))
   \<and> (\<exists>v u. format_market_cap (PStr s) = Inr (v, u))"
proof (intro conjI impI)
  show "format_market_cap PNone = Inr (''N/A'', '''')"
    by (simp add: format_market_cap_def)
  show "format_market_cap (PStr '''') = Inr (''N/A'', '''')"
    by (simp add: format_market_cap_def)
  have "float_of_str ''abc'' = None"
    by (simp add: str_eval)
  then show "format_market_cap (PStr ''abc'') = Inr (''N/A'', '''')"
    by (simp add: format_market_cap_PStr)
  show "format_market_cap (PStr s) = Inr (''N/A'', '''')" if "float_of_str s = None"
    using that by (simp add: format_market_cap_PStr)
  show "\<exists>v u. format_market_cap (PStr s) = Inr (v, u)"
    by (simp add: format_market_cap_PStr float_1e12_def float_1e9_def float_1e6_def scaled_value
        split: option.split)
qed

theorem format_market_cap_total_witness:
  "float_of_str ''12,5'' = None \<and> format_market_cap (PStr ''12,5'') = Inr (''N/A'', '''')"
proof -
  have p: "float_of_str ''12,5'' = None"
    by (simp add: str_eval)
  with format_market_cap_total [of "''12,5''"] show ?thesis
    by simp
qed

lemma is_digit_digit_char: "d < 10 \<Longrightarrow> is_digit (digit_char d)"
  by (simp add: is_digit_def digit_char_def)

lemma show_nat_digits: "show_nat n \<noteq> [] \<and> list_all is_digit (show_nat n)"
proof (induction n rule: show_nat.induct)
  case (1 n)
  show ?case
  proof (cases "n < 10")
    case True
    then show ?thesis
      by (simp add: show_nat.simps [of n] is_digit_digit_char)
  next
    case False
    with 1 show ?thesis
      by (simp add: show_nat.simps [of n] is_digit_digit_char)
  qed
qed

lemma not_digit_minus: "is_digit c \<Longrightarrow> c \<noteq> CHR ''-''"
  by (auto simp: is_digit_def)

lemma is_fixed2_digits:
  assumes "ds \<noteq> []" "list_all is_digit ds" "is_digit a" "is_digit b"
  shows "is_fixed2 (ds @ CHR ''.'' # [a, b])" "is_fixed2 (CHR ''-'' # ds @ CHR ''.'' # [a, b])"
proof -
  obtain d ds' where ds: "ds = d # ds'" using assms(1) by (cases ds) auto
  with assms(2) have "d \<noteq> CHR ''-''" by (simp add: not_digit_minus)
  with ds assms show "is_fixed2 (ds @ CHR ''.'' # [a, b])"
    by (simp add: is_fixed2_def)
  from assms show "is_fixed2 (CHR ''-'' # ds @ CHR ''.'' # [a, b])"
    by (simp add: is_fixed2_def)
qed

lemma fmt2_Finite: "is_fixed2 (fmt2 (Finite neg q))"
  using is_fixed2_digits [OF show_nat_digits [THEN conjunct1] show_nat_digits [THEN conjunct2]]
  by (simp add: fmt2_def Let_def is_digit_digit_char)

lemma fmt2_shape: "is_fixed2 (fmt2 x) \<or> is_nonfinite_word (fmt2 x)"
  by (cases x) (simp_all add: fmt2_Finite, simp_all add: fmt2_def is_nonfinite_word_def)

subsection \<open>Chunked fetch of the fundamentals\<close>

lemma upt_map_Suc: "[0..<Suc n] = 0 # map Suc [0..<n]"
  by (simp only: upt_conv_Cons [of 0 "Suc n", OF zero_less_Suc] map_Suc_upt)

lemma ticker_chunks_Nil: "ticker_chunks [] = []"
  by (simp add: ticker_chunks_def CHUNK_SIZE_def)

lemma chunk_count:
  assumes "0 < (n::nat)"
  shows "(n + 100 - 1) div 100 = Suc ((n - 100 + 100 - 1) div 100)"
proof (cases "n \<le> 100")
  case True
  with assms have "(n + 100 - 1) div 100 = 1" by arith
  moreover from True have "(n - 100 + 100 - 1) div 100 = 0" by simp
  ultimately show ?thesis by simp
next
  case False
  then have "n + 100 - 1 = (n - 100 + 100 - 1) + 100" by arith
  then show ?thesis by (metis div_add_self2 zero_neq_numeral Suc_eq_plus1)
qed

lemma ticker_chunks_rec:
  assumes "xs \<noteq> []"
  shows "ticker_chunks xs = take 100 xs # ticker_chunks (drop 100 xs)"
proof -
  let ?f = "\<lambda>ys k. take 100 (drop (k * 100) ys)"
  let ?m = "(length (drop 100 xs) + 100 - 1) div 100"
  have "0 < length xs" using assms by simp
  then have n: "(length xs + 100 - 1) div 100 = Suc ?m"
    using chunk_count [of "length xs"] by simp
  have f: "?f xs (Suc k) = ?f (drop 100 xs) k" for k
    by (simp add: add.commute)
  have "ticker_chunks xs = map (?f xs) [0..<Suc ?m]"
    unfolding ticker_chunks_def CHUNK_SIZE_def n ..
  also have "\<dots> = ?f xs 0 # map (\<lambda>k. ?f xs (Suc k)) [0..<?m]"
    unfolding upt_map_Suc by (simp only: list.map map_map comp_def)
  also have "\<dots> = take 100 xs # map (?f (drop 100 xs)) [0..<?m]"
    unfolding f by simp
  also have "map (?f (drop 100 xs)) [0..<?m] = ticker_chunks (drop 100 xs)"
    unfolding ticker_chunks_def CHUNK_SIZE_def ..
  finally show ?thesis .
qed

lemma concat_ticker_chunks: "concat (ticker_chunks xs) = xs"
proof (induction "length xs" arbitrary: xs rule: less_induct)
  case less
  show ?case
  proof (cases "xs = []")
    case True
    then show ?thesis by (simp add: ticker_chunks_Nil)
  next
    case False
    then have "length (drop 100 xs) < length xs" by simp
    then have "concat (ticker_chunks (drop 100 xs)) = drop 100 xs" by (rule less)
    then show ?thesis by (simp add: ticker_chunks_rec [OF False])
  qed
qed

lemma ticker_chunks_sizes:
  "c \<in> set (ticker_chunks xs) \<Longrightarrow> c \<noteq> [] \<and> length c \<le> 100"
proof (induction "length xs" arbitrary: xs rule: less_induct)
  case less
  show ?case
  proof (cases "xs = []")
    case True
    with less.prems show ?thesis by (simp add: ticker_chunks_Nil)
  next
    case False
    then have "length (drop 100 xs) < length xs" by simp
    from less.hyps [OF this] less.prems show ?thesis
      using False by (auto simp: ticker_chunks_rec [OF False])
  qed
qed

lemma ticker_chunks_full:
  "c \<in> set (butlast (ticker_chunks xs)) \<Longrightarrow> length c = 100"
proof (induction "length xs" arbitrary: xs rule: less_induct)
  case less
  show ?case
  proof (cases "xs = []")
    case True
    with less.prems show ?thesis by (simp add: ticker_chunks_Nil)
  next
    case False
    then have l: "length (drop 100 xs) < length xs" by simp
    show ?thesis
    proof (cases "ticker_chunks (drop 100 xs) = []")
      case True
      with less.prems show ?thesis by (simp add: ticker_chunks_rec [OF False])
    next
      case ne: False
      then have "drop 100 xs \<noteq> []" using ticker_chunks_Nil by auto
      then have "length (take 100 xs) = 100" by simp
      with less.hyps [OF l] less.prems ne show ?thesis
        by (auto simp: ticker_chunks_rec [OF False])
    qed
  qed
qed

lemma ticker_chunks_250:
  assumes "length xs = 250"
  shows "map length (ticker_chunks xs) = [100, 100, 50]"
proof -
  define ys where "ys = drop 100 xs"
  define zs where "zs = drop 100 ys"
  have l: "length ys = 150" "length zs = 50"
    using assms by (simp_all add: ys_def zs_def)
  have "xs \<noteq> []" using assms by auto
  then have 1: "ticker_chunks xs = take 100 xs # ticker_chunks ys"
    unfolding ys_def by (rule ticker_chunks_rec)
  have "ys \<noteq> []" using l by auto
  then have 2: "ticker_chunks ys = take 100 ys # ticker_chunks zs"
    unfolding zs_def by (rule ticker_chunks_rec)
  have "zs \<noteq> []" using l by auto
  then have 3: "ticker_chunks zs = take 100 zs # ticker_chunks (drop 100 zs)"
    by (rule ticker_chunks_rec)
  have 4: "drop 100 zs = []" using l by simp
  show ?thesis
    unfolding 1 2 3 4 using assms l by (simp add: ticker_chunks_Nil)
qed

lemma fundamentals_loop_ok:
  assumes "\<forall>c \<in> set chunks. get_fundamentals c = Inr (resp c) \<and> chunk_records (resp c) = Inr (recs c)"
  shows "fundamentals_loop get_fundamentals acc chunks =
           (concat (map (\<lambda>c. [EvSleep, EvGetFundamentals c]) chunks),
            Inr (acc @ concat (map recs chunks)))"
  using assms by (induction chunks arbitrary: acc) simp_all

lemma chunk_records_shapes:
  "chunk_records (PList rs) = Inr rs"
  "map_of kvs ''results'' = Some (PList rs) \<Longrightarrow> chunk_records (PDict kvs) = Inr rs"
  by (auto simp: chunk_records_def obj_get_def)

lemma fundamentals_loop_records:
  assumes "\<forall>c \<in> set chunks. \<exists>v. get_fundamentals c = Inr v \<and> chunk_records v = Inr (recs c)"
  shows "fundamentals_loop get_fundamentals acc chunks =
           (concat (map (\<lambda>c. [EvSleep, EvGetFundamentals c]) chunks),
            Inr (acc @ concat (map recs chunks)))"
proof -
  have "\<forall>c \<in> set chunks. get_fundamentals c = Inr (projr (get_fundamentals c))
      \<and> chunk_records (projr (get_fundamentals c)) = Inr (recs c)"
    using assms by fastforce
  then show ?thesis by (rule fundamentals_loop_ok)
qed

lemma show_nat_length: "10 \<le> n \<Longrightarrow> 2 \<le> length (show_nat n)"
  using show_nat_digits [of "n div 10"]
  by (cases "show_nat (n div 10)") (simp_all add: show_nat.simps [of n])

lemma digit_char_inj:
  assumes "a < 10" and "b < 10" and "digit_char a = digit_char b"
  shows "a = b"
proof -
  from assms(3) have "(of_char (digit_char a) :: nat) = of_char (digit_char b)" by simp
  with assms(1,2) show ?thesis by (simp add: digit_char_def)
qed

lemma show_nat_inj: "show_nat m = show_nat n \<Longrightarrow> m = n"
proof (induction m arbitrary: n rule: show_nat.induct)
  case (1 m)
  show ?case
  proof (cases "m < 10")
    case True
    then have lm: "show_nat m = [digit_char m]" by (simp add: show_nat.simps [of m])
    show ?thesis
    proof (cases "n < 10")
      case n: True
      with True lm "1.prems" show ?thesis
        by (simp add: show_nat.simps [of n] digit_char_inj)
    next
      case False
      then have "2 \<le> length (show_nat n)" by (simp add: show_nat_length)
      with lm "1.prems" show ?thesis by simp
    qed
  next
    case False
    then have lm: "show_nat m = show_nat (m div 10) @ [digit_char (m mod 10)]"
      by (simp add: show_nat.simps [of m])
    show ?thesis
    proof (cases "n < 10")
      case True
      from False have "2 \<le> length (show_nat m)" by (simp add: show_nat_length)
      with True "1.prems" show ?thesis by (simp add: show_nat.simps [of n])
    next
      case n: False
      then have "show_nat n = show_nat (n div 10) @ [digit_char (n mod 10)]"
        by (simp add: show_nat.simps [of n])
      with lm "1.prems" have e: "show_nat (m div 10) = show_nat (n div 10)"
        "digit_char (m mod 10) = digit_char (n mod 10)" by simp_all
      from "1.IH" [OF False e(1)] have "m div 10 = n div 10" .
      moreover from e(2) have "m mod 10 = n mod 10" by (simp add: digit_char_inj)
      ultimately show ?thesis by (metis div_mult_mod_eq)
    qed
  qed
qed

lemma distinct_show_nat: "distinct (map (\<lambda>n. PStr (show_nat n)) [i..<j])"
  by (auto simp: distinct_map inj_on_def dest: show_nat_inj)


text \<open>
  C3. The symbol list is cut into consecutive chunks of at most 100 symbols that keep the
  order (every chunk but the last has exactly 100; 250 symbols give chunks of 100, 100 and
  50); the chunk requests are issued one after the other in chunk order, each after the
  pacing delay; and when every request is answered by a list of records, or by an envelope
  whose \<^verbatim>\<open>results\<close> field is such a list, the aggregated sequence is these lists
  concatenated in chunk order, each in the order the provider gave it.
\<close>

theorem fetch_fundamentals_chunked:
  "concat (ticker_chunks xs) = xs
   \<and> (\<forall>c \<in> set (ticker_chunks xs). c \<noteq> [] \<and> length c \<le> CHUNK_SIZE)
   \<and> (\<forall>c \<in> set (butlast (ticker_chunks xs)). length c = CHUNK_SIZE)
   \<and> CHUNK_SIZE = 100
   \<and> (length xs = 250 \<longrightarrow> map length (ticker_chunks xs) = [100, 100, 50])
   \<and> ((\<forall>c \<in> set (ticker_chunks xs).
          get_fundamentals c = Inr (PList (recs c))
          \<or> (\<exists>kvs. get_fundamentals c = Inr (PDict kvs)
                   \<and> map_of kvs ''results'' = Some (PList (recs c)))) \<longrightarrow>
        fetch_fundamentals get_fundamentals xs =
          (concat (map (\<lambda>c. [EvSleep, EvGetFundamentals c]) (ticker_chunks xs)),
           Inr (concat (map recs (ticker_chunks xs)))))"
proof (intro conjI ballI impI)
  show "concat (ticker_chunks xs) = xs"
    by (rule concat_ticker_chunks)
  show "c \<noteq> []" if "c \<in> set (ticker_chunks xs)" for c
    using ticker_chunks_sizes [OF that] by simp
  show "length c \<le> CHUNK_SIZE" if "c \<in> set (ticker_chunks xs)" for c
    using ticker_chunks_sizes [OF that] by (simp add: CHUNK_SIZE_def)
  show "length c = CHUNK_SIZE" if "c \<in> set (butlast (ticker_chunks xs))" for c
    using ticker_chunks_full [OF that] by (simp add: CHUNK_SIZE_def)
  show "CHUNK_SIZE = 100"
    by (rule CHUNK_SIZE_def)
  show "map length (ticker_chunks xs) = [100, 100, 50]" if "length xs = 250"
    using that by (rule ticker_chunks_250)
  show "fetch_fundamentals get_fundamentals xs =
          (concat (map (\<lambda>c. [EvSleep, EvGetFundamentals c]) (ticker_chunks xs)),
           Inr (concat (map recs (ticker_chunks xs))))"
    if a: "\<forall>c \<in> set (ticker_chunks xs).
          get_fundamentals c = Inr (PList (recs c))
          \<or> (\<exists>kvs. get_fundamentals c = Inr (PDict kvs)
                   \<and> map_of kvs ''results'' = Some (PList (recs c)))"
  proof -
    have "\<forall>c \<in> set (ticker_chunks xs).
        \<exists>v. get_fundamentals c = Inr v \<and> chunk_records v = Inr (recs c)"
    proof
      fix c assume "c \<in> set (ticker_chunks xs)"
      with a have "get_fundamentals c = Inr (PList (recs c))
          \<or> (\<exists>kvs. get_fundamentals c = Inr (PDict kvs)
                   \<and> map_of kvs ''results'' = Some (PList (recs c)))" by blast
      then show "\<exists>v. get_fundamentals c = Inr v \<and> chunk_records v = Inr (recs c)"
        using chunk_records_shapes by blast
    qed
    from fundamentals_loop_records [OF this, of "[]"] show ?thesis
      by (simp add: fetch_fundamentals_def)
  qed
qed


theorem fetch_fundamentals_chunked_witness:
  "distinct (map (\<lambda>n. PStr (show_nat n)) [0..<250])
   \<and> length (map (\<lambda>n. PStr (show_nat n)) [0..<250]) = 250
   \<and> ticker_chunks (map (\<lambda>n. PStr (show_nat n)) [0..<250]) =
       [map (\<lambda>n. PStr (show_nat n)) [0..<100],
        map (\<lambda>n. PStr (show_nat n)) [100..<200],
        map (\<lambda>n. PStr (show_nat n)) [200..<250]]
   \<and> fetch_fundamentals (\<lambda>c. Inr (PList (map (\<lambda>s. PDict [(''symbol'', s)]) (rev c))))
        (map (\<lambda>n. PStr (show_nat n)) [0..<250]) =
       ([EvSleep, EvGetFundamentals (map (\<lambda>n. PStr (show_nat n)) [0..<100]),
         EvSleep, EvGetFundamentals (map (\<lambda>n. PStr (show_nat n)) [100..<200]),
         EvSleep, EvGetFundamentals (map (\<lambda>n. PStr (show_nat n)) [200..<250])],
        Inr (map (\<lambda>s. PDict [(''symbol'', s)]) (rev (map (\<lambda>n. PStr (show_nat n)) [0..<100]))
             @ map (\<lambda>s. PDict [(''symbol'', s)]) (rev (map (\<lambda>n. PStr (show_nat n)) [100..<200]))
             @ map (\<lambda>s. PDict [(''symbol'', s)]) (rev (map (\<lambda>n. PStr (show_nat n)) [200..<250]))))"
proof -
  define sym where "sym = (\<lambda>n. PStr (show_nat n))"
  define xs where "xs = map sym [0..<250]"
  define ys where "ys = map sym [100..<250]"
  define zs where "zs = map sym [200..<250]"
  define gf :: "pyval list \<Rightarrow> pyerr + pyval"
    where "gf = (\<lambda>c. Inr (PList (map (\<lambda>s. PDict [(''symbol'', s)]) (rev c))))"
  define recs :: "pyval list \<Rightarrow> pyval list"
    where "recs = (\<lambda>c. map (\<lambda>s. PDict [(''symbol'', s)]) (rev c))"
  have d: "distinct xs"
    unfolding xs_def sym_def by (rule distinct_show_nat)
  have l: "length xs = 250"
    by (simp add: xs_def)
  have t1: "take 100 xs = map sym [0..<100]" and d1: "drop 100 xs = ys"
    by (simp_all add: xs_def ys_def take_map drop_map del: upt_rec_numeral)
  have t2: "take 100 ys = map sym [100..<200]" and d2: "drop 100 ys = zs"
    by (simp_all add: ys_def zs_def take_map drop_map del: upt_rec_numeral)
  have t3: "take 100 zs = zs" and d3: "drop 100 zs = []"
    by (simp_all add: zs_def del: upt_rec_numeral)
  have ne: "xs \<noteq> []" "ys \<noteq> []" "zs \<noteq> []"
    by (simp_all add: xs_def ys_def zs_def del: upt_rec_numeral)
  have c: "ticker_chunks xs = [map sym [0..<100], map sym [100..<200], zs]"
    by (simp only: ticker_chunks_rec [OF ne(1)] ticker_chunks_rec [OF ne(2)]
        ticker_chunks_rec [OF ne(3)] t1 d1 t2 d2 t3 d3 ticker_chunks_Nil)
  have h: "\<forall>c \<in> set (ticker_chunks xs).
      gf c = Inr (PList (recs c))
      \<or> (\<exists>kvs. gf c = Inr (PDict kvs) \<and> map_of kvs ''results'' = Some (PList (recs c)))"
    by (simp add: gf_def recs_def)
  from fetch_fundamentals_chunked [of xs gf recs] h
  have "fetch_fundamentals gf xs =
      (concat (map (\<lambda>c. [EvSleep, EvGetFundamentals c]) (ticker_chunks xs)),
       Inr (concat (map recs (ticker_chunks xs))))"
    by blast
  then have "fetch_fundamentals gf xs =
      ([EvSleep, EvGetFundamentals (map sym [0..<100]),
        EvSleep, EvGetFundamentals (map sym [100..<200]),
        EvSleep, EvGetFundamentals zs],
       Inr (recs (map sym [0..<100]) @ recs (map sym [100..<200]) @ recs zs))"
    unfolding c by simp
  with d l c show ?thesis
    unfolding xs_def zs_def gf_def recs_def sym_def by blast
qed

subsection \<open>The price fetcher\<close>

lemma key_eq_PStr [simp]: "key_eq (PStr a) k = (k = PStr a)"
  by (cases k) (auto simp: key_eq_def)





lemma dict_store_values:
  "\<forall>x \<in> snd ` set d. P x \<Longrightarrow> P v \<Longrightarrow> \<forall>x \<in> snd ` set (dict_store d k v). P x"
  by (induction d) (fastforce split: if_splits)+










lemma fetch_latest_prices_try_list:
  "glp tickers = Inr (PList ps) \<Longrightarrow>
     fetch_latest_prices_try glp tickers = price_loop [] (zip tickers ps)"
  by (cases ps) (simp_all add: fetch_latest_prices_try_def)

lemma fetch_latest_prices_try_other:
  assumes "fetch_latest_prices_try glp tickers = Inr prices"
  shows "(\<exists>ps. glp tickers = Inr (PList ps)) \<or> prices = []"
  using assms
  by (simp add: fetch_latest_prices_try_def split: sum.splits pyval.splits if_splits)








lemma float_of_str_150: "float_of_str ''150.00'' = Some (Finite False 150)"
  by (simp add: str_eval float_eval)

lemma fmt2_150: "fmt2 (Finite False 150) = ''150.00''"
  by (simp add: float_eval fmt_eval)




subsection \<open>The merge\<close>

lemma merge_row_dict:
  assumes "kvs \<noteq> []" and "hashable (obj_get kvs ''symbol'' (PStr ''N/A''))"
    and "format_market_cap (obj_get kvs ''market_cap'' PNone) = Inr (v, u)"
  shows "merge_row instrument_map latest_prices_map (PDict kvs) =
     Inr (Some
       [(''Name'',
         obj_get (case dict_lookup instrument_map (obj_get kvs ''symbol'' (PStr ''N/A'')) of
                    None \<Rightarrow> []
                  | Some entry \<Rightarrow> entry)
           ''Name'' (obj_get kvs ''name'' (PStr ''N/A''))),
        (''Symbol'', obj_get kvs ''symbol'' (PStr ''N/A'')),
        (''Price'',
         PStr (case dict_lookup latest_prices_map (obj_get kvs ''symbol'' (PStr ''N/A'')) of
                 None \<Rightarrow> ''N/A''
               | Some price \<Rightarrow> price)),
        (''Marketcap Value'', PStr v),
        (''Marketcap Unit'', PStr u)])"
  using assms by (simp add: merge_row_def dict_get_def)

lemma merge_row_skip:
  "\<not> is_nonempty_dict fund \<Longrightarrow> merge_row instrument_map latest_prices_map fund = Inr None"
  by (cases fund) (simp_all add: merge_row_def)

lemma merge_row_ok:
  assumes "record_ok fund" and "is_nonempty_dict fund"
  shows "\<exists>row. merge_row instrument_map latest_prices_map fund = Inr (Some row)
           \<and> obj_get row ''Symbol'' PNone = record_symbol fund"
proof -
  from assms(2) obtain kvs where f: "fund = PDict kvs" "kvs \<noteq> []"
    by (cases fund) simp_all
  with assms(1) have h: "hashable (obj_get kvs ''symbol'' (PStr ''N/A''))"
    by simp
  from assms(1) f obtain v u where
    "format_market_cap (obj_get kvs ''market_cap'' PNone) = Inr (v, u)"
    by (auto split: sum.splits)
  from merge_row_dict [OF f(2) h this] f(1) show ?thesis
    by (simp add: obj_get_def)
qed

lemma merge_loop_ok:
  assumes "\<forall>fund \<in> set all_fundamentals. record_ok fund"
  shows "\<exists>rows. merge_loop instrument_map latest_prices_map final_data all_fundamentals =
                  Inr (final_data @ rows)
           \<and> map (merge_row instrument_map latest_prices_map)
                 (filter is_nonempty_dict all_fundamentals) = map (\<lambda>row. Inr (Some row)) rows
           \<and> map (\<lambda>row. obj_get row ''Symbol'' PNone) rows =
               map record_symbol (filter is_nonempty_dict all_fundamentals)"
  using assms
proof (induction all_fundamentals arbitrary: final_data)
  case Nil
  then show ?case by simp
next
  case (Cons fund rest)
  from Cons.prems have ok: "record_ok fund" and rest: "\<forall>fund \<in> set rest. record_ok fund"
    by simp_all
  show ?case
  proof (cases "is_nonempty_dict fund")
    case False
    from Cons.IH [OF rest, of final_data] False show ?thesis
      by (simp add: merge_row_skip)
  next
    case True
    from merge_row_ok [OF ok True, of instrument_map latest_prices_map]
    obtain row where row: "merge_row instrument_map latest_prices_map fund = Inr (Some row)"
      "obj_get row ''Symbol'' PNone = record_symbol fund" by blast
    from Cons.IH [OF rest, of "final_data @ [row]"]
    obtain rows where rows:
      "merge_loop instrument_map latest_prices_map (final_data @ [row]) rest =
         Inr ((final_data @ [row]) @ rows)"
      "map (merge_row instrument_map latest_prices_map) (filter is_nonempty_dict rest) =
         map (\<lambda>row. Inr (Some row)) rows"
      "map (\<lambda>row. obj_get row ''Symbol'' PNone) rows =
         map record_symbol (filter is_nonempty_dict rest)" by blast
    have "merge_loop instrument_map latest_prices_map final_data (fund # rest) =
            Inr (final_data @ (row # rows))"
      using row(1) rows(1) by simp
    moreover have "map (merge_row instrument_map latest_prices_map)
        (filter is_nonempty_dict (fund # rest)) = map (\<lambda>row. Inr (Some row)) (row # rows)"
      using True row(1) rows(2) by simp
    moreover have "map (\<lambda>row. obj_get row ''Symbol'' PNone) (row # rows) =
        map record_symbol (filter is_nonempty_dict (fund # rest))"
      using True row(2) rows(3) by simp
    ultimately show ?thesis by blast
  qed
qed

lemma format_market_cap_example:
  "format_market_cap (PStr ''4440000000000.00'') = Inr (''4.44'', ''T'')"
proof -
  have p: "float_of_str ''4440000000000.00'' = Some (Finite False 4440000000000)"
    by (simp add: str_eval float_eval)
  have r: "fmt2 (round_double False (111 / 25)) = ''4.44''"
    by (simp add: float_eval fmt_eval)
  show ?thesis
    by (simp add: format_market_cap_PStr p float_1e12_def scaled_value signed_def r)
qed

lemma merge_loop_skip_all:
  "\<forall>fund \<in> set all_fundamentals. \<not> is_nonempty_dict fund \<Longrightarrow>
     merge_loop instrument_map latest_prices_map final_data all_fundamentals = Inr final_data"
  by (induction all_fundamentals) (simp_all add: merge_row_skip)

text \<open>
  C1 as the code has it. The merge is a join on the fundamentals: when no record makes
  the loop body raise, exactly one row is emitted for each record that is a non-empty
  dict, in the order of the fundamentals, under that record's symbol, so a symbol that no
  record carries has no row; a record that is an empty dict is skipped like \<^verbatim>\<open>None\<close>. On
  the example of the specification the output is the single row for AAPL.
\<close>

theorem merge_fan_in:
  assumes "\<forall>fund \<in> set all_fundamentals. record_ok fund"
  shows "\<exists>rows. merge instrument_map latest_prices_map all_fundamentals = Inr rows
           \<and> length rows = length (filter is_nonempty_dict all_fundamentals)
           \<and> map (merge_row instrument_map latest_prices_map)
                 (filter is_nonempty_dict all_fundamentals) = map (\<lambda>row. Inr (Some row)) rows
           \<and> map (\<lambda>row. obj_get row ''Symbol'' PNone) rows =
               map record_symbol (filter is_nonempty_dict all_fundamentals)
           \<and> (\<forall>s. s \<notin> record_symbol ` set all_fundamentals \<longrightarrow>
                  s \<notin> (\<lambda>row. obj_get row ''Symbol'' PNone) ` set rows)
           \<and> merge
        [(PStr ''AAPL'', [(''Name'', PStr ''Apple'')]), (PStr ''TSLA'', [(''Name'', PStr ''Tesla'')])]
        [(PStr ''AAPL'', ''$150.00'')]
        [PDict [(''symbol'', PStr ''AAPL''), (''market_cap'', PStr ''4440000000000.00'')]] =
      Inr [[(''Name'', PStr ''Apple''), (''Symbol'', PStr ''AAPL''), (''Price'', PStr ''$150.00''),
            (''Marketcap Value'', PStr ''4.44''), (''Marketcap Unit'', PStr ''T'')]]"
proof -
  have ex: "merge
        [(PStr ''AAPL'', [(''Name'', PStr ''Apple'')]), (PStr ''TSLA'', [(''Name'', PStr ''Tesla'')])]
        [(PStr ''AAPL'', ''$150.00'')]
        [PDict [(''symbol'', PStr ''AAPL''), (''market_cap'', PStr ''4440000000000.00'')]] =
      Inr [[(''Name'', PStr ''Apple''), (''Symbol'', PStr ''AAPL''), (''Price'', PStr ''$150.00''),
            (''Marketcap Value'', PStr ''4.44''), (''Marketcap Unit'', PStr ''T'')]]"
    by (simp add: merge_def merge_row_def dict_get_def obj_get_def format_market_cap_example)
  from merge_loop_ok [OF assms, of instrument_map latest_prices_map "[]"]
  obtain rows where rows:
    "merge instrument_map latest_prices_map all_fundamentals = Inr rows"
    "map (merge_row instrument_map latest_prices_map)
       (filter is_nonempty_dict all_fundamentals) = map (\<lambda>row. Inr (Some row)) rows"
    "map (\<lambda>row. obj_get row ''Symbol'' PNone) rows =
       map record_symbol (filter is_nonempty_dict all_fundamentals)"
    by (auto simp: merge_def)
  from rows(2) have l: "length rows = length (filter is_nonempty_dict all_fundamentals)"
    by (metis length_map)
  have "(\<lambda>row. obj_get row ''Symbol'' PNone) ` set rows \<subseteq> record_symbol ` set all_fundamentals"
  proof -
    have "(\<lambda>row. obj_get row ''Symbol'' PNone) ` set rows =
        set (map record_symbol (filter is_nonempty_dict all_fundamentals))"
      unfolding rows(3) [symmetric] by simp
    then show ?thesis by auto
  qed
  with rows l ex show ?thesis by blast
qed

theorem merge_fan_in_witness:
  "record_ok (PDict [(''symbol'', PStr ''AAPL''), (''market_cap'', PStr ''4440000000000.00'')])
   \<and> merge
        [(PStr ''AAPL'', [(''Name'', PStr ''Apple'')]), (PStr ''TSLA'', [(''Name'', PStr ''Tesla'')])]
        [(PStr ''AAPL'', ''$150.00'')]
        [PDict [(''symbol'', PStr ''AAPL''), (''market_cap'', PStr ''4440000000000.00'')]] =
      Inr [[(''Name'', PStr ''Apple''), (''Symbol'', PStr ''AAPL''), (''Price'', PStr ''$150.00''),
            (''Marketcap Value'', PStr ''4.44''), (''Marketcap Unit'', PStr ''T'')]]"
proof -
  let ?N = "[(PStr ''AAPL'', [(''Name'', PStr ''Apple'')]), (PStr ''TSLA'', [(''Name'', PStr ''Tesla'')])]"
  let ?P = "[(PStr ''AAPL'', ''$150.00'')]"
  let ?f = "PDict [(''symbol'', PStr ''AAPL''), (''market_cap'', PStr ''4440000000000.00'')]"
  let ?row = "[(''Name'', PStr ''Apple''), (''Symbol'', PStr ''AAPL''), (''Price'', PStr ''$150.00''),
            (''Marketcap Value'', PStr ''4.44''), (''Marketcap Unit'', PStr ''T'')]"
  have ok: "record_ok ?f"
    by (simp add: obj_get_def format_market_cap_example)
  then have h: "\<forall>fund \<in> set [?f]. record_ok fund" by simp
  have r: "merge_row ?N ?P ?f = Inr (Some ?row)"
    by (simp add: merge_row_def dict_get_def obj_get_def format_market_cap_example)
  from merge_fan_in [OF h, of ?N ?P]
  obtain rows where rows: "merge ?N ?P [?f] = Inr rows"
    "map (merge_row ?N ?P) (filter is_nonempty_dict [?f]) = map (\<lambda>row. Inr (Some row)) rows"
    by blast
  from rows(2) have "[Inr (Some ?row)] = map (\<lambda>row. Inr (Some row) :: pyerr + out_row option) rows"
    by (simp add: r)
  then have "rows = [?row]"
    by (cases rows) auto
  with rows(1) ok show ?thesis by simp
qed

text \<open>
  C1 as stated fails on a record that is a dict but empty: it is not \<^verbatim>\<open>None\<close>, and no row is
  emitted for it.
\<close>

theorem merge_fan_in_counterexample:
  "is_dict (PDict []) \<and> PDict [] \<noteq> PNone
   \<and> merge
        [(PStr ''AAPL'', [(''Name'', PStr ''Apple'')]), (PStr ''TSLA'', [(''Name'', PStr ''Tesla'')])]
        [(PStr ''AAPL'', ''$150.00'')]
        [PDict []] = Inr []"
  by (simp add: merge_def merge_row_def)

lemma dict_lookup_in: "dict_lookup d k = Some v \<Longrightarrow> v \<in> snd ` set d"
  by (induction d) (auto split: if_splits)

lemma extract_loop_entries:
  assumes "extract_loop m instruments = Inr m'"
    and "\<forall>entry \<in> snd ` set m. \<exists>n. entry = [(''Name'', n)]"
  shows "\<forall>entry \<in> snd ` set m'. \<exists>n. entry = [(''Name'', n)]"
  using assms
proof (induction instruments arbitrary: m)
  case Nil
  then show ?case by simp
next
  case (Cons i rest)
  show ?case
  proof (cases "\<exists>kvs. i = PDict kvs \<and> py_truthy (obj_get kvs ''symbol'' PNone)")
    case False
    then have "extract_loop m (i # rest) = extract_loop m rest"
      by (cases i) simp_all
    with Cons show ?thesis by simp
  next
    case True
    then obtain kvs where i: "i = PDict kvs" "py_truthy (obj_get kvs ''symbol'' PNone)"
      by blast
    let ?m = "dict_store m (obj_get kvs ''symbol'' PNone) [(''Name'', obj_get kvs ''name'' PNone)]"
    from Cons.prems(1) i have l: "extract_loop ?m rest = Inr m'"
      by (simp add: dict_setitem_def split: if_splits)
    have "\<forall>entry \<in> snd ` set ?m. \<exists>n. entry = [(''Name'', n)]"
      using Cons.prems(2) by (rule dict_store_values) simp
    with Cons.IH [OF l] show ?thesis by simp
  qed
qed

text \<open>
  C6. For a fundamentals record that is a non-empty dict (and on which the body does not
  raise), the row's Name is the watchlist entry's name when the watchlist lookup has the
  record's symbol, otherwise the record's own \<^verbatim>\<open>name\<close> field, otherwise \<^verbatim>\<open>N/A\<close>; the row's
  Price is the price map's entry for the symbol, otherwise \<^verbatim>\<open>N/A\<close>.
\<close>

theorem merge_row_name_and_price:
  assumes "kvs \<noteq> []"
    and "hashable (obj_get kvs ''symbol'' (PStr ''N/A''))"
    and "format_market_cap (obj_get kvs ''market_cap'' PNone) = Inr (v, u)"
  shows "\<exists>name price.
           merge_row instrument_map latest_prices_map (PDict kvs) =
             Inr (Some [(''Name'', name), (''Symbol'', obj_get kvs ''symbol'' (PStr ''N/A'')),
                        (''Price'', PStr price), (''Marketcap Value'', PStr v),
                        (''Marketcap Unit'', PStr u)])
           \<and> name =
               (case dict_lookup instrument_map (obj_get kvs ''symbol'' (PStr ''N/A'')) of
                  Some entry \<Rightarrow>
                    (case map_of entry ''Name'' of
                       Some n \<Rightarrow> n
                     | None \<Rightarrow> (case map_of kvs ''name'' of Some n \<Rightarrow> n | None \<Rightarrow> PStr ''N/A''))
                | None \<Rightarrow> (case map_of kvs ''name'' of Some n \<Rightarrow> n | None \<Rightarrow> PStr ''N/A''))
           \<and> price =
               (case dict_lookup latest_prices_map (obj_get kvs ''symbol'' (PStr ''N/A'')) of
                  Some p \<Rightarrow> p
                | None \<Rightarrow> ''N/A'')
           \<and> (\<forall>instruments entry.
                 extract_loop [] instruments = Inr instrument_map
                 \<and> dict_lookup instrument_map (obj_get kvs ''symbol'' (PStr ''N/A'')) = Some entry
                 \<longrightarrow> entry = [(''Name'', name)])"
proof -
  let ?sym = "obj_get kvs ''symbol'' (PStr ''N/A'')"
  let ?fallback = "case map_of kvs ''name'' of Some n \<Rightarrow> n | None \<Rightarrow> PStr ''N/A''"
  let ?name = "case dict_lookup instrument_map ?sym of
                  Some entry \<Rightarrow> (case map_of entry ''Name'' of Some n \<Rightarrow> n | None \<Rightarrow> ?fallback)
                | None \<Rightarrow> ?fallback"
  let ?price = "case dict_lookup latest_prices_map ?sym of Some p \<Rightarrow> p | None \<Rightarrow> ''N/A''"
  have row: "merge_row instrument_map latest_prices_map (PDict kvs) =
      Inr (Some [(''Name'', ?name), (''Symbol'', ?sym), (''Price'', PStr ?price),
                 (''Marketcap Value'', PStr v), (''Marketcap Unit'', PStr u)])"
    unfolding merge_row_dict [OF assms]
    by (simp add: obj_get_def split: option.splits)
  have "entry = [(''Name'', ?name)]"
    if "extract_loop [] instruments = Inr instrument_map"
      and "dict_lookup instrument_map ?sym = Some entry" for instruments entry
  proof -
    from extract_loop_entries [OF that(1)] dict_lookup_in [OF that(2)]
    obtain n where "entry = [(''Name'', n)]" by auto
    with that(2) show ?thesis by simp
  qed
  with row show ?thesis by blast
qed

theorem merge_row_name_and_price_witness:
  "extract_loop [] [PDict [(''symbol'', PStr ''AAPL''), (''name'', PStr ''Apple'')]] =
     Inr [(PStr ''AAPL'', [(''Name'', PStr ''Apple'')])]
   \<and> merge_row [(PStr ''AAPL'', [(''Name'', PStr ''Apple'')])] []
        (PDict [(''symbol'', PStr ''AAPL''), (''name'', PStr ''Apple Inc'')]) =
      Inr (Some [(''Name'', PStr ''Apple''), (''Symbol'', PStr ''AAPL''), (''Price'', PStr ''N/A''),
                 (''Marketcap Value'', PStr ''N/A''), (''Marketcap Unit'', PStr '''')])
   \<and> merge_row [] [(PStr ''AAPL'', ''$150.00'')]
        (PDict [(''symbol'', PStr ''AAPL''), (''name'', PStr ''Apple Inc'')]) =
      Inr (Some [(''Name'', PStr ''Apple Inc''), (''Symbol'', PStr ''AAPL''),
                 (''Price'', PStr ''$150.00''),
                 (''Marketcap Value'', PStr ''N/A''), (''Marketcap Unit'', PStr '''')])
   \<and> merge_row [] [] (PDict [(''symbol'', PStr ''AAPL'')]) =
      Inr (Some [(''Name'', PStr ''N/A''), (''Symbol'', PStr ''AAPL''), (''Price'', PStr ''N/A''),
                 (''Marketcap Value'', PStr ''N/A''), (''Marketcap Unit'', PStr '''')])"
proof -
  let ?kvs = "[(''symbol'', PStr ''AAPL''), (''name'', PStr ''Apple Inc'')]"
  let ?k1 = "[(''symbol'', PStr ''AAPL'')]"
  have a: "?kvs \<noteq> []" "?k1 \<noteq> []" by simp_all
  have b: "hashable (obj_get ?kvs ''symbol'' (PStr ''N/A''))"
    "hashable (obj_get ?k1 ''symbol'' (PStr ''N/A''))"
    by (simp_all add: obj_get_def)
  have c: "format_market_cap (obj_get ?kvs ''market_cap'' PNone) = Inr (''N/A'', '''')"
    "format_market_cap (obj_get ?k1 ''market_cap'' PNone) = Inr (''N/A'', '''')"
    by (simp_all add: obj_get_def format_market_cap_def)
  have e: "extract_loop [] [PDict [(''symbol'', PStr ''AAPL''), (''name'', PStr ''Apple'')]] =
     Inr [(PStr ''AAPL'', [(''Name'', PStr ''Apple'')])]"
    by (simp add: obj_get_def dict_setitem_def)
  from merge_row_name_and_price [OF a(1) b(1) c(1), of "[(PStr ''AAPL'', [(''Name'', PStr ''Apple'')])]" "[]"]
  have 1: "merge_row [(PStr ''AAPL'', [(''Name'', PStr ''Apple'')])] [] (PDict ?kvs) =
      Inr (Some [(''Name'', PStr ''Apple''), (''Symbol'', PStr ''AAPL''), (''Price'', PStr ''N/A''),
                 (''Marketcap Value'', PStr ''N/A''), (''Marketcap Unit'', PStr '''')])"
    by (auto simp: obj_get_def)
  from merge_row_name_and_price [OF a(1) b(1) c(1), of "[]" "[(PStr ''AAPL'', ''$150.00'')]"]
  have 2: "merge_row [] [(PStr ''AAPL'', ''$150.00'')] (PDict ?kvs) =
      Inr (Some [(''Name'', PStr ''Apple Inc''), (''Symbol'', PStr ''AAPL''),
                 (''Price'', PStr ''$150.00''),
                 (''Marketcap Value'', PStr ''N/A''), (''Marketcap Unit'', PStr '''')])"
    by (auto simp: obj_get_def)
  from merge_row_name_and_price [OF a(2) b(2) c(2), of "[]" "[]"]
  have 3: "merge_row [] [] (PDict ?k1) =
      Inr (Some [(''Name'', PStr ''N/A''), (''Symbol'', PStr ''AAPL''), (''Price'', PStr ''N/A''),
                 (''Marketcap Value'', PStr ''N/A''), (''Marketcap Unit'', PStr '''')])"
    by (auto simp: obj_get_def)
  from e 1 2 3 show ?thesis by blast
qed

lemma format_market_cap_none_or_str:
  assumes "x = PNone \<or> is_str x"
  shows "\<exists>v u. format_market_cap x = Inr (v, u)"
proof (cases x)
  case PNone
  then show ?thesis by (simp add: format_market_cap_def)
next
  case (PStr s)
  then show ?thesis
    by (simp add: format_market_cap_PStr float_1e12_def float_1e9_def float_1e6_def scaled_value
        split: option.split)
qed (use assms in simp_all)

lemma py_float_huge_int: "py_float (PInt (2 ^ 1024)) = Inl OverflowError"
  by (simp add: float_eval)

text \<open>
  C10 as the code has it. A record that is a non-empty dict without a \<^verbatim>\<open>symbol\<close> key gives a
  row whenever \<^verbatim>\<open>format_market_cap\<close> accepts its market cap, which it does when the market
  cap is absent, \<^verbatim>\<open>None\<close> or a string: the row's Symbol is the string \<^verbatim>\<open>N/A\<close>, and its Name and
  Price are looked up under the key \<^verbatim>\<open>N/A\<close> in the watchlist lookup and the price map. A
  record that is falsy (\<^verbatim>\<open>None\<close>, an empty dict) or not a dict gives no row.
\<close>

theorem merge_row_without_symbol:
  "(kvs \<noteq> [] \<and> ''symbol'' \<notin> fst ` set kvs
      \<and> format_market_cap (obj_get kvs ''market_cap'' PNone) = Inr (v, u) \<longrightarrow>
      merge_row instrument_map latest_prices_map (PDict kvs) =
        Inr (Some
          [(''Name'',
            obj_get (case dict_lookup instrument_map (PStr ''N/A'') of
                       None \<Rightarrow> []
                     | Some entry \<Rightarrow> entry)
              ''Name'' (obj_get kvs ''name'' (PStr ''N/A''))),
           (''Symbol'', PStr ''N/A''),
           (''Price'',
            PStr (case dict_lookup latest_prices_map (PStr ''N/A'') of
                    None \<Rightarrow> ''N/A''
                  | Some price \<Rightarrow> price)),
           (''Marketcap Value'', PStr v),
           (''Marketcap Unit'', PStr u)]))
   \<and> (\<not> py_truthy fund \<or> \<not> is_dict fund \<longrightarrow>
        merge_row instrument_map latest_prices_map fund = Inr None
        \<and> merge instrument_map latest_prices_map [fund] = Inr [])
   \<and> merge_row instrument_map latest_prices_map PNone = Inr None
   \<and> merge_row instrument_map latest_prices_map (PDict []) = Inr None
   \<and> (kvs \<noteq> [] \<and> ''symbol'' \<notin> fst ` set kvs
        \<and> (obj_get kvs ''market_cap'' PNone = PNone \<or> is_str (obj_get kvs ''market_cap'' PNone))
      \<longrightarrow> (\<exists>row. merge_row instrument_map latest_prices_map (PDict kvs) = Inr (Some row)
                \<and> map_of row ''Symbol'' = Some (PStr ''N/A'')))"
proof (intro conjI impI)
  assume a: "kvs \<noteq> [] \<and> ''symbol'' \<notin> fst ` set kvs
      \<and> format_market_cap (obj_get kvs ''market_cap'' PNone) = Inr (v, u)"
  then have "map_of kvs ''symbol'' = None"
    by (simp add: map_of_eq_None_iff)
  then have s: "obj_get kvs ''symbol'' (PStr ''N/A'') = PStr ''N/A''"
    by (simp add: obj_get_def)
  from a have "kvs \<noteq> []" "hashable (obj_get kvs ''symbol'' (PStr ''N/A''))"
    "format_market_cap (obj_get kvs ''market_cap'' PNone) = Inr (v, u)"
    by (simp_all add: s)
  from merge_row_dict [OF this, of instrument_map latest_prices_map]
  show "merge_row instrument_map latest_prices_map (PDict kvs) =
        Inr (Some
          [(''Name'',
            obj_get (case dict_lookup instrument_map (PStr ''N/A'') of
                       None \<Rightarrow> []
                     | Some entry \<Rightarrow> entry)
              ''Name'' (obj_get kvs ''name'' (PStr ''N/A''))),
           (''Symbol'', PStr ''N/A''),
           (''Price'',
            PStr (case dict_lookup latest_prices_map (PStr ''N/A'') of
                    None \<Rightarrow> ''N/A''
                  | Some price \<Rightarrow> price)),
           (''Marketcap Value'', PStr v),
           (''Marketcap Unit'', PStr u)])"
    by (simp only: s)
next
  assume "\<not> py_truthy fund \<or> \<not> is_dict fund"
  then have n: "\<not> is_nonempty_dict fund"
    by (cases fund) auto
  then show "merge_row instrument_map latest_prices_map fund = Inr None"
    by (rule merge_row_skip)
  from n show "merge instrument_map latest_prices_map [fund] = Inr []"
    by (simp add: merge_def merge_row_skip)
next
  show "merge_row instrument_map latest_prices_map PNone = Inr None"
    by (simp add: merge_row_skip)
  show "merge_row instrument_map latest_prices_map (PDict []) = Inr None"
    by (simp add: merge_row_skip)
next
  assume a: "kvs \<noteq> [] \<and> ''symbol'' \<notin> fst ` set kvs
        \<and> (obj_get kvs ''market_cap'' PNone = PNone \<or> is_str (obj_get kvs ''market_cap'' PNone))"
  then have "map_of kvs ''symbol'' = None"
    by (simp add: map_of_eq_None_iff)
  then have s: "obj_get kvs ''symbol'' (PStr ''N/A'') = PStr ''N/A''"
    by (simp add: obj_get_def)
  from a format_market_cap_none_or_str [of "obj_get kvs ''market_cap'' PNone"]
  obtain v u where f: "format_market_cap (obj_get kvs ''market_cap'' PNone) = Inr (v, u)"
    by blast
  from a have "kvs \<noteq> []" "hashable (obj_get kvs ''symbol'' (PStr ''N/A''))"
    by (simp_all add: s)
  from merge_row_dict [OF this f, of instrument_map latest_prices_map]
  show "\<exists>row. merge_row instrument_map latest_prices_map (PDict kvs) = Inr (Some row)
                \<and> map_of row ''Symbol'' = Some (PStr ''N/A'')"
    by (simp add: s)
qed

theorem merge_row_without_symbol_witness:
  "''symbol'' \<notin> fst ` set [(''market_cap'', PStr ''abc'')]
   \<and> merge_row [(PStr ''N/A'', [(''Name'', PStr ''Placeholder'')])] [(PStr ''N/A'', ''$1.00'')]
        (PDict [(''market_cap'', PStr ''abc'')]) =
      Inr (Some [(''Name'', PStr ''Placeholder''), (''Symbol'', PStr ''N/A''),
                 (''Price'', PStr ''$1.00''),
                 (''Marketcap Value'', PStr ''N/A''), (''Marketcap Unit'', PStr '''')])
   \<and> \<not> py_truthy (PList [])
   \<and> merge [(PStr ''N/A'', [(''Name'', PStr ''Placeholder'')])] [(PStr ''N/A'', ''$1.00'')]
        [PList []] = Inr []
   \<and> \<not> is_dict (PStr ''AAPL'')
   \<and> merge [(PStr ''N/A'', [(''Name'', PStr ''Placeholder'')])] [(PStr ''N/A'', ''$1.00'')]
        [PStr ''AAPL''] = Inr []"
proof -
  let ?N = "[(PStr ''N/A'', [(''Name'', PStr ''Placeholder'')])]"
  let ?P = "[(PStr ''N/A'', ''$1.00'')]"
  let ?kvs = "[(''market_cap'', PStr ''abc'')]"
  have "float_of_str ''abc'' = None" by (simp add: str_eval)
  then have c: "format_market_cap (obj_get ?kvs ''market_cap'' PNone) = Inr (''N/A'', '''')"
    by (simp add: obj_get_def format_market_cap_PStr)
  have k: "?kvs \<noteq> []" "''symbol'' \<notin> fst ` set ?kvs" by simp_all
  note t = merge_row_without_symbol [of ?kvs "''N/A''" "''''" ?N ?P]
  from t [of "PList []"] k c have 1: "merge_row ?N ?P (PDict ?kvs) =
      Inr (Some [(''Name'', PStr ''Placeholder''), (''Symbol'', PStr ''N/A''),
                 (''Price'', PStr ''$1.00''),
                 (''Marketcap Value'', PStr ''N/A''), (''Marketcap Unit'', PStr '''')])"
    by (simp add: obj_get_def)
  from t [of "PList []"] have 2: "merge ?N ?P [PList []] = Inr []" by simp
  from t [of "PStr ''AAPL''"] have 3: "merge ?N ?P [PStr ''AAPL''] = Inr []" by simp
  from 1 2 3 show ?thesis by simp
qed

text \<open>
  C10 as stated fails on a record whose market cap is an integer too large for a float:
  \<^verbatim>\<open>float\<close> raises \<^verbatim>\<open>OverflowError\<close>, which line 45 does not catch, and no row is emitted.
\<close>

theorem merge_row_without_symbol_counterexample:
  "[(''market_cap'', PInt (2 ^ 1024))] \<noteq> []
   \<and> ''symbol'' \<notin> fst ` set [(''market_cap'', PInt (2 ^ 1024))]
   \<and> merge_row [] [] (PDict [(''market_cap'', PInt (2 ^ 1024))]) = Inl OverflowError
   \<and> merge [] [] [PDict [(''market_cap'', PInt (2 ^ 1024))]] = Inl OverflowError"
proof -
  have "format_market_cap (PInt (2 ^ 1024)) = Inl OverflowError"
    using py_float_huge_int by (simp add: format_market_cap_def format_market_cap_try_def)
  then have "merge_row [] [] (PDict [(''market_cap'', PInt (2 ^ 1024))]) = Inl OverflowError"
    by (simp add: merge_row_def dict_get_def obj_get_def)
  then show ?thesis
    by (simp add: merge_def)
qed

subsection \<open>The calls of a run\<close>

lemma do_login_trace: "fst (do_login env) = [EvLogin]"
  by (simp add: do_login_def split: sum.splits)

lemma load_watchlist_trace: "fst (load_watchlist env) = [EvGetWatchlist]"
  by (simp add: load_watchlist_def split: sum.splits)

lemma fundamentals_loop_trace_Cons:
  "fst (fundamentals_loop gf acc (c # rest)) =
     EvSleep # EvGetFundamentals c #
       (case gf c of
          Inl e \<Rightarrow> []
        | Inr cf \<Rightarrow>
            (case chunk_records cf of
               Inl e \<Rightarrow> []
             | Inr recs \<Rightarrow> fst (fundamentals_loop gf (acc @ recs) rest)))"
  by (simp split: sum.splits prod.splits)

lemma fundamentals_loop_trace:
  "ev \<in> set (fst (fundamentals_loop gf acc chunks)) \<Longrightarrow>
     ev = EvSleep \<or> (\<exists>c. ev = EvGetFundamentals c)"
proof (induction chunks arbitrary: acc)
  case Nil
  then show ?case by simp
next
  case (Cons c rest)
  from Cons.prems show ?case
    unfolding fundamentals_loop_trace_Cons
    by (auto split: sum.splits dest: Cons.IH)
qed

lemma enrich_trace:
  assumes "ev \<in> set (fst (enrich env m))"
  shows "ev = EvSleep \<or> (\<exists>c. ev = EvGetFundamentals c) \<or> (\<exists>ts. ev = EvGetLatestPrice ts)"
proof -
  let ?ff = "fetch_fundamentals (r_get_fundamentals env) (map fst m)"
  have "set (fst (enrich env m)) \<subseteq> insert (EvGetLatestPrice (map fst m)) (set (fst ?ff))"
    by (cases ?ff) (auto simp: enrich_def Let_def split: sum.splits)
  with assms have "ev = EvGetLatestPrice (map fst m) \<or> ev \<in> set (fst ?ff)" by auto
  then show ?thesis
    using fundamentals_loop_trace [of ev] by (auto simp: fetch_fundamentals_def)
qed

lemma then_do_trace:
  "set (fst (then_do m f)) \<subseteq> set (fst m) \<union> (\<Union>x. set (fst (f x)))"
proof (cases m)
  case (Pair tr r)
  show ?thesis
  proof (cases r)
    case (Continue x)
    obtain tr' r' where f: "f x = (tr', r')" by (cases "f x")
    then have "set tr' \<subseteq> (\<Union>x. set (fst (f x)))" by (metis UN_upper UNIV_I fst_conv)
    with Pair Continue f show ?thesis by (auto simp: then_do_def)
  qed (simp_all add: Pair then_do_def)
qed

lemma stages_trace:
  assumes "ev \<in> set (fst (then_do (do_login env) (\<lambda>_. then_do (load_watchlist env) (enrich env))))"
  shows "\<not> is_upload ev \<and> ev \<noteq> EvLogout"
proof -
  from assms then_do_trace [of "do_login env" "\<lambda>_. then_do (load_watchlist env) (enrich env)"]
  have "ev \<in> set (fst (do_login env))
      \<or> ev \<in> set (fst (then_do (load_watchlist env) (enrich env)))" by auto
  with then_do_trace [of "load_watchlist env" "enrich env"]
  have "ev \<in> set (fst (do_login env)) \<or> ev \<in> set (fst (load_watchlist env))
      \<or> (\<exists>m. ev \<in> set (fst (enrich env m)))" by auto
  then show ?thesis
    using enrich_trace [of ev env] by (cases ev) (auto simp: do_login_trace load_watchlist_trace)
qed



lemma publish_cases:
  "publish env final_data = ([], Inr EmptyResult)
   \<or> (\<exists>e. publish env final_data = ([], Inl e))
   \<or> (\<exists>e. publish env final_data = ([EvToMarkdown], Inl e))
   \<or> (final_data \<noteq> []
       \<and> publish env final_data =
           ([EvToMarkdown,
             EvUpload output_columns
               (df_values \<lparr>df_columns = output_columns, df_rows = final_data\<rparr>)],
            Inr Published))"
proof (cases "df_empty (DataFrame final_data)")
  case True
  then show ?thesis by (simp add: publish_def)
next
  case False
  then have ne: "final_data \<noteq> []"
    by (auto simp: df_empty_def DataFrame_def)
  show ?thesis
  proof (cases "select_columns (DataFrame final_data) output_columns")
    case (Inl e)
    with False show ?thesis by (simp add: publish_def)
  next
    case (Inr df)
    then have df: "df = \<lparr>df_columns = output_columns, df_rows = final_data\<rparr>"
      by (auto simp: select_columns_def DataFrame_def split: if_splits)
    show ?thesis
    proof (cases "df_to_markdown env")
      case None
      with False Inr ne show ?thesis
        unfolding df by (simp add: publish_def upload_to_google_sheets_def)
    next
      case (Some e)
      with False Inr show ?thesis by (simp add: publish_def)
    qed
  qed
qed

lemma publish_trace:
  "ev \<in> set (fst (publish env final_data)) \<Longrightarrow> ev \<noteq> EvLogout"
  using publish_cases [of env final_data] by auto

lemma publish_upload:
  assumes "is_upload ev" and "ev \<in> set (fst (publish env final_data))"
  shows "snd (publish env final_data) = Inr Published \<and> final_data \<noteq> []
    \<and> ev = EvUpload output_columns
               (df_values \<lparr>df_columns = output_columns, df_rows = final_data\<rparr>)"
  using publish_cases [of env final_data] assms by auto

lemma run_try_stopped:
  assumes "then_do (do_login env) (\<lambda>_. then_do (load_watchlist env) (enrich env)) = (tr, r)"
    and "\<forall>final_data. r \<noteq> Continue final_data"
  shows "run_try env = (tr, case r of Raised e \<Rightarrow> Inl e | Returned out \<Rightarrow> Inr out)"
  using assms by (cases r) (simp_all add: run_try_def)

lemma run_try_merged:
  assumes "then_do (do_login env) (\<lambda>_. then_do (load_watchlist env) (enrich env)) =
             (tr, Continue final_data)"
  shows "run_try env = (tr @ fst (publish env final_data), snd (publish env final_data))"
  using assms by (simp add: run_try_def split: prod.splits)

lemma run_try_trace:
  assumes "ev \<in> set (fst (run_try env))"
  shows "(\<not> is_upload ev \<and> ev \<noteq> EvLogout)
    \<or> (\<exists>tr final_data.
          then_do (do_login env) (\<lambda>_. then_do (load_watchlist env) (enrich env)) =
            (tr, Continue final_data)
          \<and> run_try env = (tr @ fst (publish env final_data), snd (publish env final_data))
          \<and> ev \<in> set (fst (publish env final_data)))"
proof -
  obtain tr r where s: "then_do (do_login env) (\<lambda>_. then_do (load_watchlist env) (enrich env)) = (tr, r)"
    by (cases "then_do (do_login env) (\<lambda>_. then_do (load_watchlist env) (enrich env))")
  have st: "\<not> is_upload ev \<and> ev \<noteq> EvLogout" if "ev \<in> set tr"
    using stages_trace [of ev env] that s by simp
  show ?thesis
  proof (cases "\<exists>final_data. r = Continue final_data")
    case False
    with run_try_stopped [OF s] have "fst (run_try env) = tr" by simp
    with assms st show ?thesis by simp
  next
    case True
    then obtain final_data where r: "r = Continue final_data" ..
    note m = run_try_merged [OF s [unfolded r]]
    with assms have "ev \<in> set tr \<or> ev \<in> set (fst (publish env final_data))" by simp
    then show ?thesis
    proof
      assume "ev \<in> set tr"
      then show ?thesis using st by simp
    next
      assume "ev \<in> set (fst (publish env final_data))"
      with s r m show ?thesis by blast
    qed
  qed
qed

lemma run_try_no_logout: "EvLogout \<notin> set (fst (run_try env))"
proof
  assume "EvLogout \<in> set (fst (run_try env))"
  from run_try_trace [OF this] obtain final_data
    where "EvLogout \<in> set (fst (publish env final_data))" by auto
  then show False using publish_trace by blast
qed

lemma export_eq:
  "export_24hr_market_to_csv_and_sheet env =
     (fst (run_try env) @ [EvLogout],
      case snd (run_try env) of Inl e \<Rightarrow> Unexpected e | Inr out \<Rightarrow> out)"
  by (cases "run_try env"; cases "r_logout env")
    (simp_all add: export_24hr_market_to_csv_and_sheet_def)

subsection \<open>Session cleanup\<close>

lemma stages_ignore_logout:
  "do_login (env\<lparr>r_logout := l\<rparr>) = do_login env"
  "load_watchlist (env\<lparr>r_logout := l\<rparr>) = load_watchlist env"
  "enrich (env\<lparr>r_logout := l\<rparr>) = enrich env"
  "publish (env\<lparr>r_logout := l\<rparr>) = publish env"
  by (simp_all add: do_login_def load_watchlist_def enrich_def publish_def fun_eq_iff Let_def
      split: sum.split option.split prod.split)

lemma run_try_ignores_logout: "run_try (env\<lparr>r_logout := l\<rparr>) = run_try env"
  by (simp only: run_try_def stages_ignore_logout)

text \<open>
  C9. Whatever the collaborators answer, the run ends with exactly one logout call, made
  after everything else: after a normal completion, after each early return and after an
  exception caught at the top level. The run itself never raises, and an exception of the
  logout changes neither the calls made nor the way the run ended.
\<close>

theorem logout_on_every_path:
  "(\<exists>tr. fst (export_24hr_market_to_csv_and_sheet env) = tr @ [EvLogout]
         \<and> EvLogout \<notin> set tr)
   \<and> export_24hr_market_to_csv_and_sheet (env\<lparr>r_logout := Some e\<rparr>) =
       export_24hr_market_to_csv_and_sheet (env\<lparr>r_logout := None\<rparr>)"
proof
  show "\<exists>tr. fst (export_24hr_market_to_csv_and_sheet env) = tr @ [EvLogout]
         \<and> EvLogout \<notin> set tr"
    using run_try_no_logout [of env] by (simp add: export_eq)
  show "export_24hr_market_to_csv_and_sheet (env\<lparr>r_logout := Some e\<rparr>) =
       export_24hr_market_to_csv_and_sheet (env\<lparr>r_logout := None\<rparr>)"
    by (simp only: export_eq run_try_ignores_logout)
qed

theorem logout_on_every_path_witness:
  "export_24hr_market_to_csv_and_sheet
     \<lparr>r_login = Inr PNone, r_get_watchlist_by_name = Inr PNone,
      r_get_latest_price = answers (Inr PNone), r_get_fundamentals = answers (Inr PNone),
      df_to_markdown = None, r_logout = Some (ProviderError ''session expired'')\<rparr> =
     ([EvLogin, EvLogout], LoginFailed)
   \<and> export_24hr_market_to_csv_and_sheet
     \<lparr>r_login = Inl (ProviderError ''network''), r_get_watchlist_by_name = Inr PNone,
      r_get_latest_price = answers (Inr PNone), r_get_fundamentals = answers (Inr PNone),
      df_to_markdown = None, r_logout = None\<rparr> =
     ([EvLogin, EvLogout], Unexpected (ProviderError ''network''))"
proof -
  let ?env = "\<lparr>r_login = Inr PNone, r_get_watchlist_by_name = Inr PNone,
      r_get_latest_price = answers (Inr PNone), r_get_fundamentals = answers (Inr PNone),
      df_to_markdown = None, r_logout = None\<rparr>"
  let ?env' = "\<lparr>r_login = Inl (ProviderError ''network''), r_get_watchlist_by_name = Inr PNone,
      r_get_latest_price = answers (Inr PNone), r_get_fundamentals = answers (Inr PNone),
      df_to_markdown = None, r_logout = None\<rparr>"
  have 1: "export_24hr_market_to_csv_and_sheet ?env = ([EvLogin, EvLogout], LoginFailed)"
    by (simp add: export_eq run_try_def do_login_def login_rejected_def then_do_def)
  have 2: "export_24hr_market_to_csv_and_sheet ?env' =
      ([EvLogin, EvLogout], Unexpected (ProviderError ''network''))"
    by (simp add: export_eq run_try_def do_login_def login_rejected_def then_do_def)
  from logout_on_every_path [of ?env "ProviderError ''session expired''"] 1
  have "export_24hr_market_to_csv_and_sheet (?env\<lparr>r_logout := Some (ProviderError ''session expired'')\<rparr>) =
      ([EvLogin, EvLogout], LoginFailed)"
    by simp
  with 2 show ?thesis by simp
qed

subsection \<open>An empty merge\<close>

lemma dict_store_keys_fst:
  "map fst (dict_store d k v) = map fst d \<or> map fst (dict_store d k v) = map fst d @ [k]"
  by (induction d) (auto split: if_splits)

lemma dict_store_keys_subset: "fst ` set (dict_store d k v) \<subseteq> insert k (fst ` set d)"
proof -
  have "set (map fst (dict_store d k v)) \<subseteq> insert k (set (map fst d))"
  proof (rule disjE [OF dict_store_keys_fst [of d k v]])
    assume "map fst (dict_store d k v) = map fst d"
    then show ?thesis by (simp only: subset_insertI)
  next
    assume "map fst (dict_store d k v) = map fst d @ [k]"
    then have "set (map fst (dict_store d k v)) = set (map fst d @ [k])" by (simp only:)
    then show ?thesis by auto
  qed
  then show ?thesis by (simp only: set_map)
qed

lemma extract_loop_keys:
  assumes "extract_loop m instruments = Inr m'" and "\<forall>k \<in> fst ` set m. hashable k"
  shows "\<forall>k \<in> fst ` set m'. hashable k"
  using assms
proof (induction instruments arbitrary: m)
  case Nil
  then show ?case by simp
next
  case (Cons i rest)
  show ?case
  proof (cases "\<exists>kvs. i = PDict kvs \<and> py_truthy (obj_get kvs ''symbol'' PNone)")
    case False
    then have "extract_loop m (i # rest) = extract_loop m rest"
      by (cases i) simp_all
    with Cons show ?thesis by simp
  next
    case True
    then obtain kvs where i: "i = PDict kvs" "py_truthy (obj_get kvs ''symbol'' PNone)"
      by blast
    let ?k = "obj_get kvs ''symbol'' PNone"
    let ?m = "dict_store m ?k [(''Name'', obj_get kvs ''name'' PNone)]"
    from Cons.prems(1) i have l: "extract_loop ?m rest = Inr m'" and h: "hashable ?k"
      by (simp_all add: dict_setitem_def split: if_splits)
    have "\<forall>k \<in> fst ` set ?m. hashable k"
    proof
      fix k assume "k \<in> fst ` set ?m"
      with dict_store_keys_subset have "k \<in> insert ?k (fst ` set m)"
        by (rule subsetD)
      then have "k = ?k \<or> k \<in> fst ` set m" by simp
      then show "hashable k"
      proof
        assume "k = ?k"
        with h show ?thesis by simp
      next
        assume "k \<in> fst ` set m"
        with Cons.prems(2) show ?thesis by (rule bspec)
      qed
    qed
    with Cons.IH [OF l] show ?thesis by simp
  qed
qed

lemma load_watchlist_Continue:
  assumes "load_watchlist env = (tr, Continue m)"
  shows "\<exists>instruments. extract_loop [] instruments = Inr m"
proof (cases "r_get_watchlist_by_name env")
  case (Inl e)
  with assms show ?thesis by (simp add: load_watchlist_def)
next
  case (Inr raw)
  show ?thesis
  proof (cases "py_iter (list_of_instruments raw)")
    case (Inl e)
    with Inr assms show ?thesis by (simp add: load_watchlist_def split: if_splits)
  next
    case instruments: (Inr instruments)
    show ?thesis
    proof (cases "extract_loop [] instruments")
      case (Inl e)
      with Inr instruments assms show ?thesis by (simp add: load_watchlist_def split: if_splits)
    next
      case m': (Inr m')
      with Inr instruments assms have "m' = m"
        by (simp add: load_watchlist_def split: if_splits)
      with m' show ?thesis by blast
    qed
  qed
qed

lemma load_watchlist_keys:
  assumes "load_watchlist env = (tr, Continue m)"
  shows "\<forall>k \<in> set (map fst m). hashable k"
proof -
  from load_watchlist_Continue [OF assms] obtain instruments
    where "extract_loop [] instruments = Inr m" ..
  from extract_loop_keys [OF this] show ?thesis by simp
qed

lemma all_na_hashable:
  "\<forall>t \<in> set ts. hashable t \<Longrightarrow> \<exists>d'. all_na d ts = Inr d'"
  by (induction ts arbitrary: d) (simp_all add: dict_setitem_def)

lemma fetch_latest_prices_hashable:
  assumes "\<forall>t \<in> set ts. hashable t"
  shows "\<exists>prices. fetch_latest_prices glp ts = Inr prices"
proof (cases "fetch_latest_prices_try glp ts")
  case (Inl e)
  with all_na_hashable [OF assms, of "[]"] show ?thesis
    by (auto simp: fetch_latest_prices_def)
next
  case (Inr prices)
  then show ?thesis by (simp add: fetch_latest_prices_def)
qed

lemma fetch_fundamentals_empty:
  assumes "\<forall>c. gf c = Inr (PList [])"
  shows "snd (fetch_fundamentals gf ts) = Inr []"
proof -
  have "\<forall>c \<in> set (ticker_chunks ts).
      gf c = Inr ((\<lambda>c. PList []) c) \<and> chunk_records ((\<lambda>c. PList []) c) = Inr ((\<lambda>c. []) c)"
    using assms by (simp add: chunk_records_def)
  from fundamentals_loop_ok [OF this, of "[]"] show ?thesis
    by (simp add: fetch_fundamentals_def)
qed

lemma enrich_empty_fundamentals:
  assumes "\<forall>k \<in> set (map fst m). hashable k"
    and "\<forall>c. r_get_fundamentals env c = Inr (PList [])"
  shows "snd (enrich env m) = Continue []"
proof -
  from fetch_latest_prices_hashable [OF assms(1)]
  obtain prices where p: "fetch_latest_prices (r_get_latest_price env) (map fst m) = Inr prices"
    by blast
  obtain tr where f: "fetch_fundamentals (r_get_fundamentals env) (map fst m) = (tr, Inr [])"
    using fetch_fundamentals_empty [OF assms(2), of "map fst m"]
    by (cases "fetch_fundamentals (r_get_fundamentals env) (map fst m)") simp
  show ?thesis
    by (simp add: enrich_def Let_def p f merge_def)
qed

lemma then_do_Continue:
  "m = (tr, Continue x) \<Longrightarrow> then_do m f = (tr @ fst (f x), snd (f x))"
  by (simp add: then_do_def split: prod.splits)

lemma publish_Nil: "publish env [] = ([], Inr EmptyResult)"
  by (simp add: publish_def df_empty_def DataFrame_def)

lemma no_upload_filter: "\<forall>ev \<in> set tr. \<not> is_upload ev \<Longrightarrow> filter is_upload tr = []"
  by (simp add: filter_empty_conv)

lemma rows_of_run_trace:
  assumes "rows_of_run env = (tr, r)"
  shows "filter is_upload tr = []"
proof (rule no_upload_filter, rule ballI)
  fix ev assume "ev \<in> set tr"
  with assms have "ev \<in> set (fst (rows_of_run env))" by simp
  then show "\<not> is_upload ev"
    unfolding rows_of_run_def using stages_trace by blast
qed

lemma run_try_empty_rows:
  assumes "rows_of_run env = (tr, Continue [])"
  shows "export_24hr_market_to_csv_and_sheet env = (tr @ [EvLogout], EmptyResult)"
proof -
  from assms have "run_try env = (tr @ fst (publish env []), snd (publish env []))"
    unfolding rows_of_run_def by (rule run_try_merged)
  then show ?thesis by (simp add: export_eq publish_Nil)
qed

lemma empty_result_no_upload:
  assumes "snd (export_24hr_market_to_csv_and_sheet env) = EmptyResult"
  shows "filter is_upload (fst (export_24hr_market_to_csv_and_sheet env)) = []"
proof -
  have "\<not> is_upload ev" if "ev \<in> set (fst (run_try env))" for ev
  proof
    assume u: "is_upload ev"
    with run_try_trace [OF that] obtain tr final_data where
      r: "run_try env = (tr @ fst (publish env final_data), snd (publish env final_data))"
      and e: "ev \<in> set (fst (publish env final_data))" by blast
    from publish_upload [OF u e] have "snd (publish env final_data) = Inr Published" by simp
    with r have "snd (export_24hr_market_to_csv_and_sheet env) = Published"
      by (simp add: export_eq)
    with assms show False by simp
  qed
  then have "filter is_upload (fst (run_try env)) = []"
    by (simp add: filter_empty_conv)
  then show ?thesis by (simp add: export_eq)
qed

lemma rows_of_run_empty_fundamentals:
  assumes "do_login env = ([EvLogin], Continue ())"
    and "load_watchlist env = ([EvGetWatchlist], Continue m)"
    and "\<forall>c. r_get_fundamentals env c = Inr (PList [])"
  shows "rows_of_run env = (EvLogin # EvGetWatchlist # fst (enrich env m), Continue [])"
proof -
  from load_watchlist_keys [OF assms(2)] assms(3)
  have e: "snd (enrich env m) = Continue []" by (rule enrich_empty_fundamentals)
  have "then_do (load_watchlist env) (enrich env) =
      ([EvGetWatchlist] @ fst (enrich env m), snd (enrich env m))"
    using assms(2) by (rule then_do_Continue)
  with e have "then_do (load_watchlist env) (enrich env) =
      (EvGetWatchlist # fst (enrich env m), Continue [])" by simp
  with assms(1) show ?thesis
    by (simp add: rows_of_run_def then_do_def)
qed

text \<open>
  C7. When the merge yields no row, the run ends on the empty-result branch (the message
  of line 222, the run's \<open>EmptyResult\<close> outcome) and \<^verbatim>\<open>upload_to_google_sheets\<close> is not called:
  no run that ends so contains an upload call. Fundamentals that are empty for every chunk
  after a watchlist with symbols are such a case.
\<close>

theorem empty_merge_is_not_published:
  "(rows_of_run env = (tr, Continue []) \<longrightarrow>
      export_24hr_market_to_csv_and_sheet env = (tr @ [EvLogout], EmptyResult)
      \<and> filter is_upload (tr @ [EvLogout]) = [])
   \<and> (snd (export_24hr_market_to_csv_and_sheet env) = EmptyResult \<longrightarrow>
        filter is_upload (fst (export_24hr_market_to_csv_and_sheet env)) = [])
   \<and> (do_login env = ([EvLogin], Continue ())
        \<and> load_watchlist env = ([EvGetWatchlist], Continue m)
        \<and> (\<forall>c. r_get_fundamentals env c = Inr (PList [])) \<longrightarrow>
        snd (export_24hr_market_to_csv_and_sheet env) = EmptyResult)
   \<and> publish env [] = ([], Inr EmptyResult)"
proof (intro conjI impI)
  assume a: "rows_of_run env = (tr, Continue [])"
  then show "export_24hr_market_to_csv_and_sheet env = (tr @ [EvLogout], EmptyResult)"
    by (rule run_try_empty_rows)
  from rows_of_run_trace [OF a] show "filter is_upload (tr @ [EvLogout]) = []"
    by simp
next
  assume "snd (export_24hr_market_to_csv_and_sheet env) = EmptyResult"
  then show "filter is_upload (fst (export_24hr_market_to_csv_and_sheet env)) = []"
    by (rule empty_result_no_upload)
next
  assume "do_login env = ([EvLogin], Continue ())
        \<and> load_watchlist env = ([EvGetWatchlist], Continue m)
        \<and> (\<forall>c. r_get_fundamentals env c = Inr (PList []))"
  then have "rows_of_run env = (EvLogin # EvGetWatchlist # fst (enrich env m), Continue [])"
    using rows_of_run_empty_fundamentals by blast
  from run_try_empty_rows [OF this]
  show "snd (export_24hr_market_to_csv_and_sheet env) = EmptyResult" by simp
next
  show "publish env [] = ([], Inr EmptyResult)" by (rule publish_Nil)
qed

theorem empty_merge_is_not_published_witness:
  "do_login
     \<lparr>r_login = Inr (PDict [(''access_token'', PStr ''token'')]),
      r_get_watchlist_by_name =
        Inr (PList [PDict [(''symbol'', PStr ''AAPL''), (''name'', PStr ''Apple'')]]),
      r_get_latest_price = answers (Inr (PList [PStr ''150.00''])),
      r_get_fundamentals = answers (Inr (PList [])),
      df_to_markdown = None, r_logout = None\<rparr> = ([EvLogin], Continue ())
   \<and> load_watchlist
     \<lparr>r_login = Inr (PDict [(''access_token'', PStr ''token'')]),
      r_get_watchlist_by_name =
        Inr (PList [PDict [(''symbol'', PStr ''AAPL''), (''name'', PStr ''Apple'')]]),
      r_get_latest_price = answers (Inr (PList [PStr ''150.00''])),
      r_get_fundamentals = answers (Inr (PList [])),
      df_to_markdown = None, r_logout = None\<rparr> =
       ([EvGetWatchlist], Continue [(PStr ''AAPL'', [(''Name'', PStr ''Apple'')])])
   \<and> snd (export_24hr_market_to_csv_and_sheet
     \<lparr>r_login = Inr (PDict [(''access_token'', PStr ''token'')]),
      r_get_watchlist_by_name =
        Inr (PList [PDict [(''symbol'', PStr ''AAPL''), (''name'', PStr ''Apple'')]]),
      r_get_latest_price = answers (Inr (PList [PStr ''150.00''])),
      r_get_fundamentals = answers (Inr (PList [])),
      df_to_markdown = None, r_logout = None\<rparr>) = EmptyResult
   \<and> filter is_upload (fst (export_24hr_market_to_csv_and_sheet
     \<lparr>r_login = Inr (PDict [(''access_token'', PStr ''token'')]),
      r_get_watchlist_by_name =
        Inr (PList [PDict [(''symbol'', PStr ''AAPL''), (''name'', PStr ''Apple'')]]),
      r_get_latest_price = answers (Inr (PList [PStr ''150.00''])),
      r_get_fundamentals = answers (Inr (PList [])),
      df_to_markdown = None, r_logout = None\<rparr>)) = []"
proof -
  let ?env = "\<lparr>r_login = Inr (PDict [(''access_token'', PStr ''token'')]),
      r_get_watchlist_by_name =
        Inr (PList [PDict [(''symbol'', PStr ''AAPL''), (''name'', PStr ''Apple'')]]),
      r_get_latest_price = answers (Inr (PList [PStr ''150.00''])),
      r_get_fundamentals = answers (Inr (PList [])),
      df_to_markdown = None, r_logout = None\<rparr>"
  let ?m = "[(PStr ''AAPL'', [(''Name'', PStr ''Apple'')])]"
  have a: "do_login ?env = ([EvLogin], Continue ())"
    by (simp add: do_login_def login_rejected_def)
  have b: "load_watchlist ?env = ([EvGetWatchlist], Continue ?m)"
    by (simp add: load_watchlist_def list_of_instruments_def obj_get_def dict_setitem_def)
  have c: "\<forall>c. r_get_fundamentals ?env c = Inr (PList [])"
    by (simp add: answers_def)
  note t = empty_merge_is_not_published [of ?env "[]" ?m]
  from a b c have h: "do_login ?env = ([EvLogin], Continue ())
        \<and> load_watchlist ?env = ([EvGetWatchlist], Continue ?m)
        \<and> (\<forall>c. r_get_fundamentals ?env c = Inr (PList []))"
    by (intro conjI)
  from t [THEN conjunct2, THEN conjunct2, THEN conjunct1, THEN mp, OF h]
  have o: "snd (export_24hr_market_to_csv_and_sheet ?env) = EmptyResult" .
  from t [THEN conjunct2, THEN conjunct1, THEN mp, OF o]
  have u: "filter is_upload (fst (export_24hr_market_to_csv_and_sheet ?env)) = []" .
  from a b o u show ?thesis by (intro conjI)
qed

subsection \<open>The shape of what is published\<close>

lemma price_as_printed_NA: "price_as_printed ''N/A''"
  by (simp add: price_as_printed_def)

lemma price_as_printed_fmt2: "price_as_printed (''$'' @ fmt2 x)"
  using fmt2_shape [of x] by (simp add: price_as_printed_def)

lemma price_loop_step_any:
  assumes "price_loop d ((t, p) # rest) = Inr d'"
  shows "\<exists>v. price_as_printed v \<and> price_loop (dict_store d t v) rest = Inr d'"
proof (cases "hashable t")
  case False
  then have "price_loop d ((t, p) # rest) = Inl TypeError \<or> (\<exists>e. py_float p = Inl e \<and> price_loop d ((t, p) # rest) = Inl e)"
    by (cases "py_float p") (auto simp: dict_setitem_def)
  with assms show ?thesis by auto
next
  case True
  show ?thesis
  proof (cases "py_float p")
    case (Inr x)
    with True assms have "price_loop (dict_store d t (''$'' @ fmt2 x)) rest = Inr d'"
      by (simp add: dict_setitem_def)
    with price_as_printed_fmt2 show ?thesis by blast
  next
    case (Inl e)
    with True assms have "price_loop (dict_store d t ''N/A'') rest = Inr d'"
      by (simp add: dict_setitem_def split: if_splits)
    with price_as_printed_NA show ?thesis by blast
  qed
qed

lemma price_loop_values:
  assumes "price_loop d zs = Inr d'" and "\<forall>x \<in> snd ` set d. price_as_printed x"
  shows "\<forall>x \<in> snd ` set d'. price_as_printed x"
  using assms
proof (induction zs arbitrary: d)
  case Nil
  then show ?case by simp
next
  case (Cons z zs)
  obtain t p where z: "z = (t, p)" by (cases z)
  from Cons.prems(1) [unfolded z] price_loop_step_any
  obtain v where v: "price_as_printed v" "price_loop (dict_store d t v) zs = Inr d'"
    by blast
  have "\<forall>x \<in> snd ` set (dict_store d t v). price_as_printed x"
    using Cons.prems(2) v(1) by (rule dict_store_values)
  with Cons.IH [OF v(2)] show ?case .
qed

lemma all_na_values:
  assumes "all_na d ts = Inr d'" and "\<forall>x \<in> snd ` set d. price_as_printed x"
  shows "\<forall>x \<in> snd ` set d'. price_as_printed x"
  using assms
proof (induction ts arbitrary: d)
  case Nil
  then show ?case by simp
next
  case (Cons t ts)
  from Cons.prems(1) have l: "all_na (dict_store d t ''N/A'') ts = Inr d'"
    by (simp add: dict_setitem_def split: if_splits)
  have "\<forall>x \<in> snd ` set (dict_store d t ''N/A''). price_as_printed x"
    using Cons.prems(2) price_as_printed_NA by (rule dict_store_values)
  with Cons.IH [OF l] show ?case .
qed

lemma fetch_latest_prices_values:
  assumes "fetch_latest_prices glp ts = Inr prices"
  shows "\<forall>x \<in> snd ` set prices. price_as_printed x"
proof (cases "ts = []")
  case True
  with assms show ?thesis by (simp add: fetch_latest_prices_def)
next
  case False
  have e: "\<forall>x \<in> snd ` set ([] :: prices). price_as_printed x" by simp
  show ?thesis
  proof (cases "fetch_latest_prices_try glp ts")
    case (Inl e')
    with False assms have "all_na [] ts = Inr prices"
      by (simp add: fetch_latest_prices_def)
    from all_na_values [OF this e] show ?thesis .
  next
    case (Inr p)
    with False assms have p: "fetch_latest_prices_try glp ts = Inr prices"
      by (simp add: fetch_latest_prices_def)
    from fetch_latest_prices_try_other [OF p] show ?thesis
    proof
      assume "\<exists>ps. glp ts = Inr (PList ps)"
      then obtain ps where "glp ts = Inr (PList ps)" ..
      with p have "price_loop [] (zip ts ps) = Inr prices"
        by (simp add: fetch_latest_prices_try_list [of glp ts ps])
      from price_loop_values [OF this e] show ?thesis .
    next
      assume "prices = []"
      then show ?thesis by simp
    qed
  qed
qed

lemma scaled_shape:
  assumes "scaled cap d u = Inr (v, u')"
  shows "u' = u \<and> (\<exists>y. v = fmt2 y)"
  using assms by (auto simp: scaled_def split: sum.splits)

lemma cap_value_as_printed_fmt2: "cap_value_as_printed (fmt2 y)"
  using fmt2_shape [of y] by (auto simp: cap_value_as_printed_def)

lemma format_market_cap_shape:
  assumes "format_market_cap x = Inr (v, u)"
  shows "cap_value_as_printed v \<and> is_unit u"
proof (cases "v = ''N/A'' \<and> u = ''''")
  case True
  then show ?thesis by (simp add: cap_value_as_printed_def is_unit_def)
next
  case False
  with assms have t: "format_market_cap_try x = Inr (v, u)"
    by (auto simp: format_market_cap_def split: if_splits sum.splits)
  then obtain cap where "py_float x = Inr cap"
    by (auto simp: format_market_cap_try_def split: sum.splits)
  with t have "scaled cap float_1e12 ''T'' = Inr (v, u) \<or> scaled cap float_1e9 ''B'' = Inr (v, u)
      \<or> scaled cap float_1e6 ''M'' = Inr (v, u) \<or> (v = fmt2 cap \<and> u = '''')"
    by (auto simp: format_market_cap_try_def split: if_splits)
  moreover have "cap_value_as_printed v \<and> is_unit u"
    if "scaled cap d w = Inr (v, u)" "is_unit w" for d w
    using scaled_shape [OF that(1)] that(2) cap_value_as_printed_fmt2 by auto
  moreover have "is_unit ''T''" "is_unit ''B''" "is_unit ''M''" "is_unit []"
    by (simp_all add: is_unit_def)
  ultimately show ?thesis
    using cap_value_as_printed_fmt2 by blast
qed

lemma dict_get_values:
  assumes "dict_get d k dflt = Inr v" and "\<forall>x \<in> snd ` set d. P x" and "P dflt"
  shows "P v"
proof (cases "dict_lookup d k")
  case None
  with assms show ?thesis by (simp add: dict_get_def split: if_splits)
next
  case (Some w)
  from dict_lookup_in [OF Some] assms(2) have "P w" by blast
  with Some assms(1) show ?thesis by (simp add: dict_get_def split: if_splits)
qed

lemma merge_row_shape:
  assumes "merge_row instrument_map latest_prices_map fund = Inr (Some row)"
    and "\<forall>x \<in> snd ` set latest_prices_map. price_as_printed x"
  shows "out_row_as_printed row"
proof -
  from assms(1) obtain kvs where f: "fund = PDict kvs" "kvs \<noteq> []"
    by (cases fund) (auto simp: merge_row_def split: if_splits)
  let ?sym = "obj_get kvs ''symbol'' (PStr ''N/A'')"
  from assms(1) f obtain entry where e: "dict_get instrument_map ?sym [] = Inr entry"
    by (cases "dict_get instrument_map ?sym []") (simp_all add: merge_row_def)
  from assms(1) f e obtain price where p: "dict_get latest_prices_map ?sym ''N/A'' = Inr price"
    by (cases "dict_get latest_prices_map ?sym ''N/A''") (simp_all add: merge_row_def)
  from assms(1) f e p obtain v u where
    c: "format_market_cap (obj_get kvs ''market_cap'' PNone) = Inr (v, u)"
    by (cases "format_market_cap (obj_get kvs ''market_cap'' PNone)")
      (auto simp: merge_row_def)
  from assms(1) f e p c have row: "row =
      [(''Name'', obj_get entry ''Name'' (obj_get kvs ''name'' (PStr ''N/A''))),
       (''Symbol'', ?sym), (''Price'', PStr price),
       (''Marketcap Value'', PStr v), (''Marketcap Unit'', PStr u)]"
    by (simp add: merge_row_def)
  from dict_get_values [OF p assms(2) price_as_printed_NA] have "price_as_printed price" .
  moreover from format_market_cap_shape [OF c] have "cap_value_as_printed v" "is_unit u"
    by simp_all
  ultimately show ?thesis unfolding row by simp
qed

lemma merge_loop_shape:
  assumes "merge_loop instrument_map latest_prices_map final_data all_fundamentals = Inr rows"
    and "\<forall>x \<in> snd ` set latest_prices_map. price_as_printed x"
    and "\<forall>row \<in> set final_data. out_row_as_printed row"
  shows "\<forall>row \<in> set rows. out_row_as_printed row"
  using assms(1,3)
proof (induction all_fundamentals arbitrary: final_data)
  case Nil
  then show ?case by simp
next
  case (Cons fund rest)
  show ?case
  proof (cases "merge_row instrument_map latest_prices_map fund")
    case (Inl e)
    with Cons.prems(1) show ?thesis by simp
  next
    case (Inr r)
    show ?thesis
    proof (cases r)
      case None
      with Inr Cons.prems(1)
      have "merge_loop instrument_map latest_prices_map final_data rest = Inr rows" by simp
      from Cons.IH [OF this Cons.prems(2)] show ?thesis .
    next
      case (Some row)
      with Inr Cons.prems(1)
      have l: "merge_loop instrument_map latest_prices_map (final_data @ [row]) rest = Inr rows"
        by simp
      from Inr Some have "out_row_as_printed row"
        using merge_row_shape [OF _ assms(2)] by blast
      with Cons.prems(2) have "\<forall>row \<in> set (final_data @ [row]). out_row_as_printed row"
        by simp
      from Cons.IH [OF l this] show ?thesis .
    qed
  qed
qed

lemma enrich_shape:
  assumes "enrich env m = (tr, Continue final_data)"
  shows "\<forall>row \<in> set final_data. out_row_as_printed row"
proof -
  let ?ts = "map fst m"
  from assms obtain prices where p: "fetch_latest_prices (r_get_latest_price env) ?ts = Inr prices"
    by (cases "fetch_latest_prices (r_get_latest_price env) ?ts")
      (simp_all add: enrich_def Let_def)
  obtain tr' r where f: "fetch_fundamentals (r_get_fundamentals env) ?ts = (tr', r)"
    by (cases "fetch_fundamentals (r_get_fundamentals env) ?ts")
  from assms p f obtain funds where r: "r = Inr funds"
    by (cases r) (simp_all add: enrich_def Let_def)
  from assms p f r have "merge m prices funds = Inr final_data"
    by (cases "merge m prices funds") (simp_all add: enrich_def Let_def)
  then have "merge_loop m prices [] funds = Inr final_data" by (simp add: merge_def)
  from merge_loop_shape [OF this fetch_latest_prices_values [OF p]] show ?thesis by simp
qed

lemma then_do_result:
  assumes "then_do m f = (tr, Continue y)"
  shows "\<exists>x tr'. f x = (tr', Continue y)"
proof -
  obtain tr0 r0 where m: "m = (tr0, r0)" by (cases m)
  show ?thesis
  proof (cases r0)
    case (Continue x)
    obtain tr' r' where fx: "f x = (tr', r')" by (cases "f x")
    with assms m Continue have "r' = Continue y" by (simp add: then_do_def)
    with fx show ?thesis by blast
  qed (use assms m in \<open>simp_all add: then_do_def\<close>)
qed

lemma rows_of_run_shape:
  assumes "rows_of_run env = (tr, Continue final_data)"
  shows "\<forall>row \<in> set final_data. out_row_as_printed row"
proof -
  from then_do_result [OF assms [unfolded rows_of_run_def]]
  obtain tr1 where "then_do (load_watchlist env) (enrich env) = (tr1, Continue final_data)"
    by blast
  from then_do_result [OF this]
  obtain m tr2 where "enrich env m = (tr2, Continue final_data)" by blast
  then show ?thesis by (rule enrich_shape)
qed

lemma df_values_shape:
  assumes "\<forall>row \<in> set final_data. out_row_as_printed row"
  shows "\<forall>r \<in> set (df_values \<lparr>df_columns = output_columns, df_rows = final_data\<rparr>).
           row_as_printed r"
proof -
  have "row_as_printed (map (\<lambda>c. obj_get row c (PFloat NaN)) output_columns)"
    if "out_row_as_printed row" for row
    using that
    by (induction row rule: out_row_as_printed.induct)
      (simp_all add: output_columns_def obj_get_def)
  with assms show ?thesis by (auto simp: df_values_def)
qed

lemma upload_rows_shape:
  assumes "EvUpload cols vals \<in> set (fst (export_24hr_market_to_csv_and_sheet env))"
  shows "cols = output_columns \<and> vals \<noteq> [] \<and> (\<forall>row \<in> set vals. row_as_printed row)"
proof -
  let ?ev = "EvUpload cols vals"
  from assms have "?ev \<in> set (fst (run_try env))" by (simp add: export_eq)
  from run_try_trace [OF this] obtain tr final_data where
    s: "then_do (do_login env) (\<lambda>_. then_do (load_watchlist env) (enrich env)) =
          (tr, Continue final_data)"
    and e: "?ev \<in> set (fst (publish env final_data))" by auto
  have "is_upload ?ev" by simp
  from publish_upload [OF this e] have ne: "final_data \<noteq> []"
    and v: "?ev = EvUpload output_columns
               (df_values \<lparr>df_columns = output_columns, df_rows = final_data\<rparr>)"
    by simp_all
  from s have "rows_of_run env = (tr, Continue final_data)" by (simp only: rows_of_run_def)
  then have "\<forall>row \<in> set final_data. out_row_as_printed row" by (rule rows_of_run_shape)
  then have "\<forall>r \<in> set (df_values \<lparr>df_columns = output_columns, df_rows = final_data\<rparr>).
      row_as_printed r" by (rule df_values_shape)
  moreover from ne have "df_values \<lparr>df_columns = output_columns, df_rows = final_data\<rparr> \<noteq> []"
    by (simp add: df_values_def)
  ultimately show ?thesis using v by simp
qed

text \<open>
  C8 as the code has it. Every row handed to the upload has the five cells of the columns
  Name, Symbol, Price, Marketcap Value, Marketcap Unit, in this order; its Price is
  \<^verbatim>\<open>N/A\<close>, or \<^verbatim>\<open>$\<close> followed by a fixed-point numeral with two decimals or by one of the
  words \<^verbatim>\<open>nan\<close>, \<^verbatim>\<open>inf\<close>, \<^verbatim>\<open>-inf\<close>; its Marketcap Value is \<^verbatim>\<open>N/A\<close>, such a numeral, or one
  of the three words; its Marketcap Unit is empty or one of M, B, T. The same holds of every
  price \<^verbatim>\<open>fetch_latest_prices\<close> returns and of every pair \<^verbatim>\<open>format_market_cap\<close> returns,
  whatever the providers answered. The three words are what \<^verbatim>\<open>:.2f\<close> prints for a float
  that is not finite, which \<^verbatim>\<open>float\<close> accepts as a string; nothing in the code checks for it.
\<close>

theorem published_rows_as_printed:
  "(EvUpload cols vals \<in> set (fst (export_24hr_market_to_csv_and_sheet env)) \<longrightarrow>
      cols = [''Name'', ''Symbol'', ''Price'', ''Marketcap Value'', ''Marketcap Unit'']
      \<and> vals \<noteq> [] \<and> (\<forall>row \<in> set vals. row_as_printed row))
   \<and> (fetch_latest_prices get_latest_price tickers = Inr latest_prices_map \<longrightarrow>
        (\<forall>price \<in> snd ` set latest_prices_map. price_as_printed price))
   \<and> (format_market_cap market_cap_str = Inr (v, u) \<longrightarrow> cap_value_as_printed v \<and> is_unit u)"
proof (intro conjI impI)
  assume a: "EvUpload cols vals \<in> set (fst (export_24hr_market_to_csv_and_sheet env))"
  from upload_rows_shape [OF a]
  show "cols = [''Name'', ''Symbol'', ''Price'', ''Marketcap Value'', ''Marketcap Unit'']"
    by (simp add: output_columns_def)
  from upload_rows_shape [OF a] show "vals \<noteq> []" by simp
  from upload_rows_shape [OF a] show "\<forall>row \<in> set vals. row_as_printed row" by simp
next
  assume "fetch_latest_prices get_latest_price tickers = Inr latest_prices_map"
  then show "\<forall>price \<in> snd ` set latest_prices_map. price_as_printed price"
    by (rule fetch_latest_prices_values)
next
  assume a: "format_market_cap market_cap_str = Inr (v, u)"
  from format_market_cap_shape [OF a] show "cap_value_as_printed v" by simp
  from format_market_cap_shape [OF a] show "is_unit u" by simp
qed

lemma run_one_instrument:
  assumes p: "fetch_latest_prices glp [PStr ''AAPL''] = Inr [(PStr ''AAPL'', price)]"
    and c: "format_market_cap cap = Inr (v, u)"
  shows "export_24hr_market_to_csv_and_sheet
     \<lparr>r_login = Inr (PDict [(''access_token'', PStr ''token'')]),
      r_get_watchlist_by_name =
        Inr (PList [PDict [(''symbol'', PStr ''AAPL''), (''name'', PStr ''Apple'')]]),
      r_get_latest_price = glp,
      r_get_fundamentals =
        answers (Inr (PList [PDict [(''symbol'', PStr ''AAPL''), (''market_cap'', cap)]])),
      df_to_markdown = None, r_logout = None\<rparr> =
     ([EvLogin, EvGetWatchlist, EvGetLatestPrice [PStr ''AAPL''], EvSleep,
       EvGetFundamentals [PStr ''AAPL''], EvToMarkdown,
       EvUpload [''Name'', ''Symbol'', ''Price'', ''Marketcap Value'', ''Marketcap Unit'']
         [[PStr ''Apple'', PStr ''AAPL'', PStr price, PStr v, PStr u]],
       EvLogout], Published)"
proof -
  let ?env = "\<lparr>r_login = Inr (PDict [(''access_token'', PStr ''token'')]),
      r_get_watchlist_by_name =
        Inr (PList [PDict [(''symbol'', PStr ''AAPL''), (''name'', PStr ''Apple'')]]),
      r_get_latest_price = glp,
      r_get_fundamentals =
        answers (Inr (PList [PDict [(''symbol'', PStr ''AAPL''), (''market_cap'', cap)]])),
      df_to_markdown = None, r_logout = None\<rparr>"
  let ?m = "[(PStr ''AAPL'', [(''Name'', PStr ''Apple'')])]"
  let ?row = "[(''Name'', PStr ''Apple''), (''Symbol'', PStr ''AAPL''), (''Price'', PStr price),
      (''Marketcap Value'', PStr v), (''Marketcap Unit'', PStr u)]"
  have a: "do_login ?env = ([EvLogin], Continue ())"
    by (simp add: do_login_def login_rejected_def)
  have b: "load_watchlist ?env = ([EvGetWatchlist], Continue ?m)"
    by (simp add: load_watchlist_def list_of_instruments_def obj_get_def dict_setitem_def)
  have ch: "ticker_chunks [PStr ''AAPL''] = [[PStr ''AAPL'']]"
    using ticker_chunks_rec [of "[PStr ''AAPL'']"] by (simp add: ticker_chunks_Nil)
  have f: "fetch_fundamentals (r_get_fundamentals ?env) [PStr ''AAPL''] =
      ([EvSleep, EvGetFundamentals [PStr ''AAPL'']],
       Inr [PDict [(''symbol'', PStr ''AAPL''), (''market_cap'', cap)]])"
    by (simp add: fetch_fundamentals_def ch answers_def chunk_records_def)
  have r: "merge_row ?m [(PStr ''AAPL'', price)]
      (PDict [(''symbol'', PStr ''AAPL''), (''market_cap'', cap)]) = Inr (Some ?row)"
    by (simp add: merge_row_def obj_get_def dict_get_def c)
  have m: "merge ?m [(PStr ''AAPL'', price)]
      [PDict [(''symbol'', PStr ''AAPL''), (''market_cap'', cap)]] = Inr [?row]"
    by (simp add: merge_def r)
  have e: "enrich ?env ?m = ([EvGetLatestPrice [PStr ''AAPL''], EvSleep,
       EvGetFundamentals [PStr ''AAPL'']], Continue [?row])"
    using f by (simp add: enrich_def Let_def p m)
  have pb: "publish ?env [?row] = ([EvToMarkdown,
       EvUpload [''Name'', ''Symbol'', ''Price'', ''Marketcap Value'', ''Marketcap Unit'']
         [[PStr ''Apple'', PStr ''AAPL'', PStr price, PStr v, PStr u]]], Inr Published)"
    by (simp add: publish_def df_empty_def DataFrame_def select_columns_def output_columns_def
        upload_to_google_sheets_def df_values_def obj_get_def)
  have "run_try ?env = ([EvLogin, EvGetWatchlist, EvGetLatestPrice [PStr ''AAPL''], EvSleep,
       EvGetFundamentals [PStr ''AAPL''], EvToMarkdown,
       EvUpload [''Name'', ''Symbol'', ''Price'', ''Marketcap Value'', ''Marketcap Unit'']
         [[PStr ''Apple'', PStr ''AAPL'', PStr price, PStr v, PStr u]]], Inr Published)"
    by (simp add: run_try_def then_do_def a b e pb)
  then show ?thesis by (simp add: export_eq)
qed

lemma fetch_latest_prices_150:
  "fetch_latest_prices (answers (Inr (PList [PStr ''150.00'']))) [PStr ''AAPL''] =
     Inr [(PStr ''AAPL'', ''$150.00'')]"
  by (simp add: fetch_latest_prices_def fetch_latest_prices_try_def answers_def
      float_of_str_150 fmt2_150 dict_setitem_def)

lemma float_of_str_inf: "float_of_str ''inf'' = Some (Infinite False)"
  by (simp add: str_eval)

lemma float_of_str_nan: "float_of_str ''nan'' = Some NaN"
  by (simp add: str_eval)

lemma fetch_latest_prices_inf:
  "fetch_latest_prices (answers (Inr (PList [PStr ''inf'']))) [PStr ''AAPL''] =
     Inr [(PStr ''AAPL'', ''$inf'')]"
  by (simp add: fetch_latest_prices_def fetch_latest_prices_try_def answers_def
      float_of_str_inf fmt2_def dict_setitem_def)

lemma format_market_cap_nan: "format_market_cap (PStr ''nan'') = Inr (''nan'', '''')"
  by (simp add: format_market_cap_PStr float_of_str_nan float_1e12_def float_1e9_def
      float_1e6_def fmt2_def)

theorem published_rows_as_printed_witness:
  "EvUpload [''Name'', ''Symbol'', ''Price'', ''Marketcap Value'', ''Marketcap Unit'']
       [[PStr ''Apple'', PStr ''AAPL'', PStr ''$150.00'', PStr ''4.44'', PStr ''T'']]
     \<in> set (fst (export_24hr_market_to_csv_and_sheet
         \<lparr>r_login = Inr (PDict [(''access_token'', PStr ''token'')]),
          r_get_watchlist_by_name =
            Inr (PList [PDict [(''symbol'', PStr ''AAPL''), (''name'', PStr ''Apple'')]]),
          r_get_latest_price = answers (Inr (PList [PStr ''150.00''])),
          r_get_fundamentals =
            answers (Inr (PList [PDict [(''symbol'', PStr ''AAPL''),
                                        (''market_cap'', PStr ''4440000000000.00'')]])),
          df_to_markdown = None, r_logout = None\<rparr>))
   \<and> row_as_printed [PStr ''Apple'', PStr ''AAPL'', PStr ''$150.00'', PStr ''4.44'', PStr ''T'']
   \<and> fetch_latest_prices (answers (Inr (PList [PStr ''150.00'']))) [PStr ''AAPL''] =
        Inr [(PStr ''AAPL'', ''$150.00'')]
   \<and> price_as_printed ''$150.00''
   \<and> format_market_cap (PStr ''4440000000000.00'') = Inr (''4.44'', ''T'')
   \<and> cap_value_as_printed ''4.44'' \<and> is_unit ''T''"
proof -
  let ?env = "\<lparr>r_login = Inr (PDict [(''access_token'', PStr ''token'')]),
          r_get_watchlist_by_name =
            Inr (PList [PDict [(''symbol'', PStr ''AAPL''), (''name'', PStr ''Apple'')]]),
          r_get_latest_price = answers (Inr (PList [PStr ''150.00''])),
          r_get_fundamentals =
            answers (Inr (PList [PDict [(''symbol'', PStr ''AAPL''),
                                        (''market_cap'', PStr ''4440000000000.00'')]])),
          df_to_markdown = None, r_logout = None\<rparr>"
  let ?cols = "[''Name'', ''Symbol'', ''Price'', ''Marketcap Value'', ''Marketcap Unit'']"
  let ?row = "[PStr ''Apple'', PStr ''AAPL'', PStr ''$150.00'', PStr ''4.44'', PStr ''T'']"
  note t = published_rows_as_printed [of ?cols "[?row]" ?env
      "answers (Inr (PList [PStr ''150.00'']))" "[PStr ''AAPL'']"
      "[(PStr ''AAPL'', ''$150.00'')]" "PStr ''4440000000000.00''" "''4.44''" "''T''"]
  have 1: "EvUpload ?cols [?row] \<in> set (fst (export_24hr_market_to_csv_and_sheet ?env))"
    by (simp add: run_one_instrument [OF fetch_latest_prices_150 format_market_cap_example])
  from t [THEN conjunct1, THEN mp, OF 1, THEN conjunct2, THEN conjunct2]
  have 2: "row_as_printed ?row" by (rule bspec) simp
  from t [THEN conjunct2, THEN conjunct1, THEN mp, OF fetch_latest_prices_150]
  have 3: "price_as_printed ''$150.00''" by simp
  from t [THEN conjunct2, THEN conjunct2, THEN mp, OF format_market_cap_example]
  have 4: "cap_value_as_printed ''4.44''" and 5: "is_unit ''T''" by simp_all
  from 1 2 3 4 5 fetch_latest_prices_150 format_market_cap_example
  show ?thesis by (intro conjI)
qed

theorem published_rows_as_printed_counterexample:
  "export_24hr_market_to_csv_and_sheet
     \<lparr>r_login = Inr (PDict [(''access_token'', PStr ''token'')]),
      r_get_watchlist_by_name =
        Inr (PList [PDict [(''symbol'', PStr ''AAPL''), (''name'', PStr ''Apple'')]]),
      r_get_latest_price = answers (Inr (PList [PStr ''inf''])),
      r_get_fundamentals =
        answers (Inr (PList [PDict [(''symbol'', PStr ''AAPL''),
                                    (''market_cap'', PStr ''nan'')]])),
      df_to_markdown = None, r_logout = None\<rparr> =
     ([EvLogin, EvGetWatchlist, EvGetLatestPrice [PStr ''AAPL''], EvSleep,
       EvGetFundamentals [PStr ''AAPL''], EvToMarkdown,
       EvUpload [''Name'', ''Symbol'', ''Price'', ''Marketcap Value'', ''Marketcap Unit'']
         [[PStr ''Apple'', PStr ''AAPL'', PStr ''$inf'', PStr ''nan'', PStr '''']],
       EvLogout], Published)
   \<and> \<not> row_in_schema [PStr ''Apple'', PStr ''AAPL'', PStr ''$inf'', PStr ''nan'', PStr '''']
   \<and> \<not> price_in_schema ''$inf''
   \<and> \<not> cap_value_in_schema ''nan''"
proof -
  have 1: "\<not> price_in_schema ''$inf''"
    by (simp add: price_in_schema_def is_fixed2_def)
  have 2: "\<not> cap_value_in_schema ''nan''"
    by (simp add: cap_value_in_schema_def is_fixed2_def)
  from 1 have 3: "\<not> row_in_schema
      [PStr ''Apple'', PStr ''AAPL'', PStr ''$inf'', PStr ''nan'', PStr '''']"
    by simp
  from run_one_instrument [OF fetch_latest_prices_inf format_market_cap_nan] 3 1 2
  show ?thesis by (intro conjI)
qed

end
